theory Spec2Isabelle
  imports Main "HOL-Library.Word"
begin

unbundle bit_operations_syntax

section \<open>Register map of the SX9324\<close>

text \<open>
  \<^verbatim>\<open>unsigned int\<close> is a 32-bit word, a register value on the wire an 8-bit word
  (\<^verbatim>\<open>reg_bits = 8\<close>, \<^verbatim>\<open>val_bits = 8\<close> in \<^verbatim>\<open>sx9324_regmap_config\<close>). A C \<^verbatim>\<open>int\<close> that
  only carries an error code (0 or a negative errno, combined with \<^verbatim>\<open>|=\<close>) is an
  \<^typ>\<open>int\<close> with the two's-complement \<open>OR\<close> of HOL.
\<close>

type_synonym u32 = "32 word"
type_synonym u8 = "8 word"

named_theorems reg_defs

definition SX9324_IRQ_SRC :: u32 where [reg_defs]: "SX9324_IRQ_SRC = 0x00"
definition SX9324_STAT_0 :: u32 where [reg_defs]: "SX9324_STAT_0 = 0x01"
definition SX9324_STAT_1 :: u32 where [reg_defs]: "SX9324_STAT_1 = 0x02"
definition SX9324_STAT_2 :: u32 where [reg_defs]: "SX9324_STAT_2 = 0x03"
definition SX9324_IRQ_MSK :: u32 where [reg_defs]: "SX9324_IRQ_MSK = 0x05"
definition SX9324_CLOSEANYIRQEN :: u32 where [reg_defs]: "SX9324_CLOSEANYIRQEN = 0x40"
definition SX9324_FARANYIRQEN :: u32 where [reg_defs]: "SX9324_FARANYIRQEN = 0x20"
definition SX9324_IRQ_CFG_2 :: u32 where [reg_defs]: "SX9324_IRQ_CFG_2 = 0x08"
definition SX9324_GNRL_CTRL_0 :: u32 where [reg_defs]: "SX9324_GNRL_CTRL_0 = 0x10"
definition SX9324_DOZEPERIOD :: u32 where [reg_defs]: "SX9324_DOZEPERIOD = 0x60"
definition SX9324_GNRL_CTRL_1 :: u32 where [reg_defs]: "SX9324_GNRL_CTRL_1 = 0x11"
definition SX9324_PHEN :: u32 where [reg_defs]: "SX9324_PHEN = 0x0f"
definition SX9324_I2C_ADDR :: u32 where [reg_defs]: "SX9324_I2C_ADDR = 0x14"
definition SX9324_CLK_SPRD :: u32 where [reg_defs]: "SX9324_CLK_SPRD = 0x15"
definition SX9324_AFE_CTRL_0 :: u32 where [reg_defs]: "SX9324_AFE_CTRL_0 = 0x20"
definition SX9324_AFE_CTRL_3 :: u32 where [reg_defs]: "SX9324_AFE_CTRL_3 = 0x23"
definition SX9324_AFE_CTRL_4 :: u32 where [reg_defs]: "SX9324_AFE_CTRL_4 = 0x24"
definition SX9324_AFE_CTRL_6 :: u32 where [reg_defs]: "SX9324_AFE_CTRL_6 = 0x26"
definition SX9324_AFE_PH_0 :: u32 where [reg_defs]: "SX9324_AFE_PH_0 = 0x28"
definition SX9324_AFE_CTRL_9 :: u32 where [reg_defs]: "SX9324_AFE_CTRL_9 = 0x2d"
definition SX9324_PROX_CTRL_0 :: u32 where [reg_defs]: "SX9324_PROX_CTRL_0 = 0x30"
definition SX9324_PROX_CTRL_7 :: u32 where [reg_defs]: "SX9324_PROX_CTRL_7 = 0x37"
definition SX9324_ADV_CTRL_0 :: u32 where [reg_defs]: "SX9324_ADV_CTRL_0 = 0x40"
definition SX9324_ADV_CTRL_20 :: u32 where [reg_defs]: "SX9324_ADV_CTRL_20 = 0x54"
definition SX9324_PHASE_SEL :: u32 where [reg_defs]: "SX9324_PHASE_SEL = 0x60"
definition SX9324_USE_MSB :: u32 where [reg_defs]: "SX9324_USE_MSB = 0x61"
definition SX9324_USE_LSB :: u32 where [reg_defs]: "SX9324_USE_LSB = 0x62"
definition SX9324_AVG_MSB :: u32 where [reg_defs]: "SX9324_AVG_MSB = 0x63"
definition SX9324_AVG_LSB :: u32 where [reg_defs]: "SX9324_AVG_LSB = 0x64"
definition SX9324_DIFF_MSB :: u32 where [reg_defs]: "SX9324_DIFF_MSB = 0x65"
definition SX9324_DIFF_LSB :: u32 where [reg_defs]: "SX9324_DIFF_LSB = 0x66"
definition SX9324_OFFSET_MSB :: u32 where [reg_defs]: "SX9324_OFFSET_MSB = 0x67"
definition SX9324_OFFSET_LSB :: u32 where [reg_defs]: "SX9324_OFFSET_LSB = 0x68"
definition SX9324_SAR_LSB :: u32 where [reg_defs]: "SX9324_SAR_LSB = 0x6a"
definition SX9324_RESET :: u32 where [reg_defs]: "SX9324_RESET = 0x9f"
definition SX9324_WHO_AM_I :: u32 where [reg_defs]: "SX9324_WHO_AM_I = 0xfa"
definition SX9324_REV :: u32 where [reg_defs]: "SX9324_REV = 0xfe"

text \<open>The errno values the driver returns itself (\<^verbatim>\<open>-EIO\<close> comes from the regmap core).\<close>

definition EIO :: int where [reg_defs]: "EIO = 5"
definition ENODEV :: int where [reg_defs]: "ENODEV = 19"
definition EINVAL :: int where [reg_defs]: "EINVAL = 22"

text \<open>\<^verbatim>\<open>enum sx9324_phase\<close>: four phases, \<^verbatim>\<open>SX9324_PHASES\<close> is their number.\<close>

definition SX9324_PHASES :: nat where [reg_defs]: "SX9324_PHASES = 4"

text \<open>
  \<^verbatim>\<open>enum sx9324_operational_mode\<close>. \<^verbatim>\<open>sx9324_set_mode\<close> has a \<^verbatim>\<open>default:\<close> branch
  for values outside the enumeration, so the mode is kept as the integer the
  enumeration is in C.
\<close>

definition SX9324_ACTIVE :: u32 where [reg_defs]: "SX9324_ACTIVE = 0"
definition SX9324_DOZE :: u32 where [reg_defs]: "SX9324_DOZE = 1"
definition SX9324_SLEEP :: u32 where [reg_defs]: "SX9324_SLEEP = 2"

datatype sx9324_reset_source = POWER_UP_RESET | SOFTWARE_RESET

text \<open>The access policy handed to the regmap core (the two \<^verbatim>\<open>switch\<close> statements).\<close>

definition sx9324_writeable_reg :: "u32 \<Rightarrow> bool" where
  "sx9324_writeable_reg reg =
     ((SX9324_IRQ_MSK \<le> reg \<and> reg \<le> SX9324_IRQ_CFG_2)
      \<or> reg = SX9324_GNRL_CTRL_0
      \<or> reg = SX9324_GNRL_CTRL_1
      \<or> reg = SX9324_I2C_ADDR
      \<or> reg = SX9324_CLK_SPRD
      \<or> reg = SX9324_AFE_CTRL_0
      \<or> reg = SX9324_AFE_CTRL_3
      \<or> reg = SX9324_AFE_CTRL_4
      \<or> (SX9324_AFE_CTRL_6 \<le> reg \<and> reg \<le> SX9324_AFE_CTRL_9)
      \<or> (SX9324_PROX_CTRL_0 \<le> reg \<and> reg \<le> SX9324_PROX_CTRL_7)
      \<or> (SX9324_ADV_CTRL_0 \<le> reg \<and> reg \<le> SX9324_ADV_CTRL_20)
      \<or> reg = SX9324_PHASE_SEL
      \<or> reg = SX9324_OFFSET_MSB
      \<or> reg = SX9324_OFFSET_LSB
      \<or> reg = SX9324_RESET)"

definition sx9324_readable_reg :: "u32 \<Rightarrow> bool" where
  "sx9324_readable_reg reg =
     ((SX9324_IRQ_SRC \<le> reg \<and> reg \<le> SX9324_IRQ_CFG_2)
      \<or> reg = SX9324_GNRL_CTRL_0
      \<or> reg = SX9324_GNRL_CTRL_1
      \<or> reg = SX9324_I2C_ADDR
      \<or> reg = SX9324_CLK_SPRD
      \<or> reg = SX9324_AFE_CTRL_0
      \<or> reg = SX9324_AFE_CTRL_3
      \<or> reg = SX9324_AFE_CTRL_4
      \<or> (SX9324_AFE_CTRL_6 \<le> reg \<and> reg \<le> SX9324_AFE_CTRL_9)
      \<or> (SX9324_PROX_CTRL_0 \<le> reg \<and> reg \<le> SX9324_PROX_CTRL_7)
      \<or> (SX9324_ADV_CTRL_0 \<le> reg \<and> reg \<le> SX9324_ADV_CTRL_20)
      \<or> (SX9324_PHASE_SEL \<le> reg \<and> reg \<le> SX9324_SAR_LSB)
      \<or> reg = SX9324_WHO_AM_I
      \<or> reg = SX9324_REV)"

section \<open>The environment: register bus, interrupt line, power rails\<close>

text \<open>
  The device behind the regmap is a register file with fault injection. \<open>regs\<close> is
  the content of the device, \<open>fault\<close> gives the outcome of the \<open>k\<close>-th bus transfer
  (0 for success, otherwise the errno the transfer returns), and \<open>trace\<close> lists the
  transfers issued so far, failed ones included, oldest first.
\<close>

datatype xfer = XRead u32 | XWrite u32 u8

record regmap =
  regs :: "u32 \<Rightarrow> u8"
  fault :: "nat \<Rightarrow> int"
  trace :: "xfer list"

text \<open>
  \<^verbatim>\<open>regmap_read\<close> and \<^verbatim>\<open>regmap_write\<close> of the kernel: an address the policy rejects
  gives \<^verbatim>\<open>-EIO\<close> before any transfer; a failed transfer changes no register. The
  value component of a failed read is 0: the kernel stores nothing through the
  pointer then, and no caller below looks at the value after a failure.
\<close>

definition regmap_read :: "regmap \<Rightarrow> u32 \<Rightarrow> int \<times> u32 \<times> regmap" where
  "regmap_read m reg =
     (if \<not> sx9324_readable_reg reg then (- EIO, 0, m)
      else
        let e = fault m (length (trace m));
            m' = m\<lparr>trace := trace m @ [XRead reg]\<rparr>
        in if e \<noteq> 0 then (e, 0, m') else (0, ucast (regs m reg), m'))"

definition regmap_write :: "regmap \<Rightarrow> u32 \<Rightarrow> u32 \<Rightarrow> int \<times> regmap" where
  "regmap_write m reg val =
     (if \<not> sx9324_writeable_reg reg then (- EIO, m)
      else
        let e = fault m (length (trace m));
            m' = m\<lparr>trace := trace m @ [XWrite reg (ucast val)]\<rparr>
        in if e \<noteq> 0 then (e, m') else (0, m'\<lparr>regs := (regs m)(reg := ucast val)\<rparr>))"

text \<open>
  \<^verbatim>\<open>regmap_update_bits\<close> of the kernel on an uncached map: read the register, merge
  the masked bits, write the result back when it differs from what was read.
\<close>

definition regmap_update_bits :: "regmap \<Rightarrow> u32 \<Rightarrow> u32 \<Rightarrow> u32 \<Rightarrow> int \<times> regmap" where
  "regmap_update_bits m reg mask' val =
     (let (ret, orig, m1) = regmap_read m reg in
      if ret \<noteq> 0 then (ret, m1)
      else
        let tmp = (orig AND NOT mask') OR (val AND mask')
        in if tmp \<noteq> orig then regmap_write m1 reg tmp else (0, m1))"

text \<open>
  The interrupt line: \<open>level\<close> is the value \<^verbatim>\<open>gpiod_get_value\<close> returns at its
  \<open>k\<close>-th sampling, \<open>sampled\<close> counts the samplings done.
\<close>

record gpio_desc =
  level :: "nat \<Rightarrow> int"
  sampled :: nat

definition gpiod_get_value :: "gpio_desc \<Rightarrow> int \<times> gpio_desc" where
  "gpiod_get_value g = (level g (sampled g), g\<lparr>sampled := Suc (sampled g)\<rparr>)"

text \<open>
  A power rail: \<open>outcome\<close> is the return value of the \<open>k\<close>-th call of
  \<^verbatim>\<open>regulator_enable\<close> or \<^verbatim>\<open>regulator_disable\<close>, \<open>calls\<close> lists the calls made
  (\<open>True\<close> for enable, \<open>False\<close> for disable), oldest first.
\<close>

record regulator =
  outcome :: "nat \<Rightarrow> int"
  calls :: "bool list"

definition regulator_enable :: "regulator \<Rightarrow> int \<times> regulator" where
  "regulator_enable r = (outcome r (length (calls r)), r\<lparr>calls := calls r @ [True]\<rparr>)"

definition regulator_disable :: "regulator \<Rightarrow> int \<times> regulator" where
  "regulator_disable r = (outcome r (length (calls r)), r\<lparr>calls := calls r @ [False]\<rparr>)"

section \<open>Driver data\<close>

text \<open>
  \<^verbatim>\<open>struct sx9324_phase_stat\<close> has six one-bit unsigned bit-fields; an assignment
  keeps the lowest bit of the value.
\<close>

record sx9324_phase_stat =
  steady :: "1 word"
  prox :: "1 word"
  table :: "1 word"
  body :: "1 word"
  fail :: "1 word"
  comp_stat :: "1 word"

record sx9324_phase_data =
  is_valid :: bool
  proxuseful :: int
  proxavg :: int
  proxdiff :: int
  stat :: sx9324_phase_stat

text \<open>The messages of \<^verbatim>\<open>pr_err\<close>, with the values they print.\<close>

datatype log_msg =
    Write_default_failed u32 int
  | Software_reset_failed int
  | Not_ready int
  | Reset_failed
  | Init_failed

text \<open>
  \<^verbatim>\<open>struct sx9324_data\<close>. \<open>phdata\<close> is the array of \<^verbatim>\<open>SX9324_PHASES\<close> entries, as a
  function of the index (the code only uses the indices 0 to 3). \<open>klog\<close> is the
  kernel log, which is not a member of the C structure; it is kept here so that
  one state is passed along.
\<close>

record sx9324_data =
  regmap :: regmap
  nirq_gpio :: gpio_desc
  pullup :: regulator
  pullup_enabled :: bool
  vdd :: regulator
  vdd_enabled :: bool
  phdata :: "nat \<Rightarrow> sx9324_phase_data"
  klog :: "log_msg list"

definition pr_err :: "log_msg \<Rightarrow> sx9324_data \<Rightarrow> sx9324_data" where
  "pr_err msg d = d\<lparr>klog := klog d @ [msg]\<rparr>"

section \<open>Power rails\<close>

definition sx9324_enable_pullup :: "sx9324_data \<Rightarrow> bool \<Rightarrow> int \<times> sx9324_data" where
  "sx9324_enable_pullup d enable =
     (if pullup_enabled d \<noteq> enable then
        let (error, r) = (if enable then regulator_enable (pullup d)
                          else regulator_disable (pullup d));
            d1 = d\<lparr>pullup := r\<rparr>
        in if error = 0 then (error, d1\<lparr>pullup_enabled := enable\<rparr>) else (error, d1)
      else (0, d))"

definition sx9324_enable_vdd :: "sx9324_data \<Rightarrow> bool \<Rightarrow> int \<times> sx9324_data" where
  "sx9324_enable_vdd d enable =
     (if vdd_enabled d \<noteq> enable then
        let (error, r) = (if enable then regulator_enable (vdd d)
                          else regulator_disable (vdd d));
            d1 = d\<lparr>vdd := r\<rparr>
        in if error = 0 then (error, d1\<lparr>vdd_enabled := enable\<rparr>) else (error, d1)
      else (0, d))"

section \<open>Software defaults\<close>

definition sx9324_reg_defaults :: "(u32 \<times> u32) list" where
  "sx9324_reg_defaults =
     [(SX9324_IRQ_MSK, SX9324_CLOSEANYIRQEN OR SX9324_FARANYIRQEN),
      (SX9324_GNRL_CTRL_0, 0x45),
      (SX9324_AFE_PH_0, 0x29),
      (SX9324_GNRL_CTRL_1, 0x21)]"

text \<open>
  The \<^verbatim>\<open>while\<close> loop of \<^verbatim>\<open>sx9324_get_software_default\<close> over the table. \<open>Some v\<close>
  is "returns true with \<^verbatim>\<open>*val = v\<close>", \<open>None\<close> is "returns false, \<^verbatim>\<open>*val\<close> untouched".
\<close>

fun get_software_default_from :: "(u32 \<times> u32) list \<Rightarrow> u32 \<Rightarrow> u32 option" where
  "get_software_default_from [] reg = None"
| "get_software_default_from ((r, v) # rest) reg =
     (if r = reg then Some v else get_software_default_from rest reg)"

definition sx9324_get_software_default :: "u32 \<Rightarrow> u32 option" where
  "sx9324_get_software_default reg = get_software_default_from sx9324_reg_defaults reg"

text \<open>
  The \<^verbatim>\<open>for\<close> loop of \<^verbatim>\<open>sx9324_reset_software_default\<close> over the remaining entries
  of the table: write, and on an error log the address and leave the loop.
\<close>

fun reset_software_default_from :: "(u32 \<times> u32) list \<Rightarrow> sx9324_data \<Rightarrow> int \<times> sx9324_data" where
  "reset_software_default_from [] d = (0, d)"
| "reset_software_default_from ((r, v) # rest) d =
     (let (error, m) = regmap_write (regmap d) r v;
          d1 = d\<lparr>regmap := m\<rparr>
      in if error \<noteq> 0 then (error, pr_err (Write_default_failed r error) d1)
         else reset_software_default_from rest d1)"

definition sx9324_reset_software_default :: "sx9324_data \<Rightarrow> int \<times> sx9324_data" where
  "sx9324_reset_software_default d = reset_software_default_from sx9324_reg_defaults d"

section \<open>Phase data readback\<close>

text \<open>
  \<^verbatim>\<open>(short)((msb << 8) | lsb)\<close>, converted back to \<^verbatim>\<open>int\<close> by the assignment: the
  low 16 bits, read as two's complement.
\<close>

definition phdata_signed :: "u32 \<Rightarrow> u32 \<Rightarrow> int" where
  "phdata_signed msb lsb = sint (ucast (push_bit 8 msb OR lsb) :: 16 word)"

text \<open>The six bit-field assignments of phase \<open>i\<close> from the three status values.\<close>

definition phase_stat_of :: "nat \<Rightarrow> u32 \<Rightarrow> u32 \<Rightarrow> u32 \<Rightarrow> sx9324_phase_stat" where
  "phase_stat_of i stat0 stat1 stat2 =
     \<lparr>steady = ucast (drop_bit (i + 4) stat0 AND 0x01),
      prox = ucast (drop_bit i stat0 AND 0x01),
      table = ucast (drop_bit (i + 4) stat1 AND 0x01),
      body = ucast (drop_bit i stat1 AND 0x01),
      fail = ucast (drop_bit (i + 4) stat2 AND 0x01),
      comp_stat = ucast (drop_bit i stat2 AND 0x01)\<rparr>"

text \<open>
  The body of the second \<^verbatim>\<open>for\<close> loop of \<^verbatim>\<open>sx9324_read_phdata\<close> for an enabled
  phase \<open>i\<close>. A nonzero error in the result is one of the four \<^verbatim>\<open>break\<close>s.
\<close>

definition read_phase :: "nat \<Rightarrow> u32 \<Rightarrow> u32 \<Rightarrow> u32 \<Rightarrow> sx9324_data \<Rightarrow> int \<times> sx9324_data" where
  "read_phase i stat0 stat1 stat2 d =
     (let (error, m) = regmap_write (regmap d) SX9324_PHASE_SEL (of_nat i);
          d = d\<lparr>regmap := m\<rparr>
      in if error \<noteq> 0 then (error, d)
      else
        let (e1, msb, m) = regmap_read (regmap d) SX9324_USE_MSB;
            (e2, lsb, m) = regmap_read m SX9324_USE_LSB;
            error = e1 OR e2;
            d = d\<lparr>regmap := m\<rparr>
        in if error \<noteq> 0 then (error, d)
        else
          let d = d\<lparr>phdata := (phdata d)(i := (phdata d i)\<lparr>proxuseful := phdata_signed msb lsb\<rparr>)\<rparr>;
              (e1, msb, m) = regmap_read (regmap d) SX9324_AVG_MSB;
              (e2, lsb, m) = regmap_read m SX9324_AVG_LSB;
              error = e1 OR e2;
              d = d\<lparr>regmap := m\<rparr>
          in if error \<noteq> 0 then (error, d)
          else
            let d = d\<lparr>phdata := (phdata d)(i := (phdata d i)\<lparr>proxavg := phdata_signed msb lsb\<rparr>)\<rparr>;
                (e1, msb, m) = regmap_read (regmap d) SX9324_DIFF_MSB;
                (e2, lsb, m) = regmap_read m SX9324_DIFF_LSB;
                error = e1 OR e2;
                d = d\<lparr>regmap := m\<rparr>
            in if error \<noteq> 0 then (error, d)
            else
              (error,
               d\<lparr>phdata := (phdata d)(i := (phdata d i)
                    \<lparr>is_valid := True,
                     proxdiff := phdata_signed msb lsb,
                     stat := phase_stat_of i stat0 stat1 stat2\<rparr>)\<rparr>))"

text \<open>
  The second \<^verbatim>\<open>for\<close> loop, from index \<open>i\<close> on, entered with the current \<open>error\<close>:
  it runs while \<^verbatim>\<open>i < SX9324_PHASES && !error\<close>.
\<close>

function read_phdata_loop ::
  "nat \<Rightarrow> u32 \<Rightarrow> u32 \<Rightarrow> u32 \<Rightarrow> u32 \<Rightarrow> int \<Rightarrow> sx9324_data \<Rightarrow> int \<times> sx9324_data" where
  "read_phdata_loop i val stat0 stat1 stat2 error d =
     (if i < SX9324_PHASES \<and> error = 0 then
        if drop_bit i val AND 0x01 \<noteq> 0 then
          let (error', d') = read_phase i stat0 stat1 stat2 d
          in if error' \<noteq> 0 then (error', d')
             else read_phdata_loop (i + 1) val stat0 stat1 stat2 error' d'
        else read_phdata_loop (i + 1) val stat0 stat1 stat2 error d
      else (error, d))"
  by pat_completeness auto
termination
  by (relation "measure (\<lambda>(i, val, stat0, stat1, stat2, error, d). SX9324_PHASES - i)")
     (auto simp: SX9324_PHASES_def)

declare read_phdata_loop.simps [simp del]

text \<open>The first \<^verbatim>\<open>for\<close> loop: every entry is marked invalid, nothing else changes.\<close>

definition invalidate_phdata :: "sx9324_data \<Rightarrow> sx9324_data" where
  "invalidate_phdata d =
     fold (\<lambda>i d. d\<lparr>phdata := (phdata d)(i := (phdata d i)\<lparr>is_valid := False\<rparr>)\<rparr>)
       [0..<SX9324_PHASES] d"

text \<open>
  \<^verbatim>\<open>sx9324_read_phdata\<close>. The mutex around the readback has no effect on a single
  call and is left out.
\<close>

definition sx9324_read_phdata :: "sx9324_data \<Rightarrow> int \<times> sx9324_data" where
  "sx9324_read_phdata d =
     (let d = invalidate_phdata d;
          (error, val, m) = regmap_read (regmap d) SX9324_GNRL_CTRL_1;
          d = d\<lparr>regmap := m\<rparr>
      in if error \<noteq> 0 then (error, d)
      else if val AND SX9324_PHEN \<noteq> 0 then
        let (e0, stat0, m) = regmap_read (regmap d) SX9324_STAT_0;
            (e1, stat1, m) = regmap_read m SX9324_STAT_1;
            (e2, stat2, m) = regmap_read m SX9324_STAT_2;
            error = (e0 OR e1) OR e2
        in read_phdata_loop 0 val stat0 stat1 stat2 error (d\<lparr>regmap := m\<rparr>)
      else (error, d))"

section \<open>Operational mode\<close>

text \<open>
  \<^verbatim>\<open>sx9324_get_mode\<close>: the second argument is the content of \<^verbatim>\<open>*mode\<close> before the
  call, the second component of the result its content afterwards.
\<close>

definition sx9324_get_mode :: "sx9324_data \<Rightarrow> u32 \<Rightarrow> int \<times> u32 \<times> sx9324_data" where
  "sx9324_get_mode d mode =
     (let (error, val, m) = regmap_read (regmap d) SX9324_GNRL_CTRL_1;
          d = d\<lparr>regmap := m\<rparr>
      in if error = 0 then
           if val AND SX9324_PHEN \<noteq> 0 then
             let (error, val, m) = regmap_read (regmap d) SX9324_GNRL_CTRL_0;
                 d = d\<lparr>regmap := m\<rparr>
             in if error = 0 then
                  if val AND SX9324_DOZEPERIOD \<noteq> 0 then (error, SX9324_DOZE, d)
                  else (error, SX9324_ACTIVE, d)
                else (error, mode, d)
           else (error, SX9324_SLEEP, d)
         else (error, mode, d))"

definition sx9324_set_mode :: "sx9324_data \<Rightarrow> u32 \<Rightarrow> int \<times> sx9324_data" where
  "sx9324_set_mode d mode =
     (if mode = SX9324_ACTIVE \<or> mode = SX9324_DOZE then
        let val = (case sx9324_get_software_default SX9324_GNRL_CTRL_1 of
                     Some v \<Rightarrow> v | None \<Rightarrow> 0x0f);
            (error, m) = regmap_update_bits (regmap d) SX9324_GNRL_CTRL_1 SX9324_PHEN val
        in if mode = SX9324_ACTIVE then
             let (e2, m) = regmap_update_bits m SX9324_GNRL_CTRL_0 SX9324_DOZEPERIOD 0
             in (error OR e2, d\<lparr>regmap := m\<rparr>)
           else
             let val = (case sx9324_get_software_default SX9324_GNRL_CTRL_0 of
                          Some v \<Rightarrow> v | None \<Rightarrow> 0x40);
                 (e2, m) = regmap_update_bits m SX9324_GNRL_CTRL_0 SX9324_DOZEPERIOD val
             in (error OR e2, d\<lparr>regmap := m\<rparr>)
      else if mode = SX9324_SLEEP then
        let (error, m) = regmap_update_bits (regmap d) SX9324_GNRL_CTRL_1 SX9324_PHEN 0
        in (error, d\<lparr>regmap := m\<rparr>)
      else (- EINVAL, d))"

section \<open>Reset\<close>

text \<open>
  The readiness check that ends \<^verbatim>\<open>sx9324_reset\<close> (from the first
  \<^verbatim>\<open>gpiod_get_value\<close> on).
\<close>

definition reset_ready :: "sx9324_data \<Rightarrow> int \<times> sx9324_data" where
  "reset_ready d =
     (let (v, g) = gpiod_get_value (nirq_gpio d);
          d = d\<lparr>nirq_gpio := g\<rparr>
      in if 0 = v then
           let (ret, val, m) = regmap_read (regmap d) SX9324_IRQ_SRC;
               d = d\<lparr>regmap := m\<rparr>
           in if ret \<noteq> 0 then (ret, pr_err (Not_ready ret) d)
              else
                let (v, g) = gpiod_get_value (nirq_gpio d);
                    d = d\<lparr>nirq_gpio := g\<rparr>
                in if 1 \<noteq> v then (- ENODEV, pr_err Reset_failed d) else (0, d)
         else (- ENODEV, pr_err Init_failed d))"

text \<open>\<^verbatim>\<open>sx9324_reset\<close>. The delay of the power-up branch changes no state.\<close>

definition sx9324_reset :: "sx9324_data \<Rightarrow> sx9324_reset_source \<Rightarrow> int \<times> sx9324_data" where
  "sx9324_reset d src =
     (case src of
        POWER_UP_RESET \<Rightarrow> reset_ready d
      | SOFTWARE_RESET \<Rightarrow>
          let (ret, m) = regmap_write (regmap d) SX9324_RESET 0xde;
              d = d\<lparr>regmap := m\<rparr>
          in if ret \<noteq> 0 then (ret, pr_err (Software_reset_failed ret) d)
             else reset_ready d)"

text \<open>
  The entry of phase \<open>i\<close> as the registers of the device and the three status
  values describe it.
\<close>

abbreviation entry_read :: "regmap \<Rightarrow> nat \<Rightarrow> u32 \<Rightarrow> u32 \<Rightarrow> u32 \<Rightarrow> sx9324_phase_data" where
  "entry_read m i s0 s1 s2 \<equiv>
     \<lparr>is_valid = True,
      proxuseful = phdata_signed (ucast (regs m SX9324_USE_MSB)) (ucast (regs m SX9324_USE_LSB)),
      proxavg = phdata_signed (ucast (regs m SX9324_AVG_MSB)) (ucast (regs m SX9324_AVG_LSB)),
      proxdiff = phdata_signed (ucast (regs m SX9324_DIFF_MSB)) (ucast (regs m SX9324_DIFF_LSB)),
      stat = phase_stat_of i s0 s1 s2\<rparr>"

text \<open>
  The entry of a phase after a readback whose first transfer (the phase select)
  is the \<open>k\<close>-th on the bus: \<open>old\<close> when the select or one of the two reads of
  the useful value fails, \<open>old\<close> with the useful value stored when a read of the
  average fails, \<open>old\<close> with the useful value and the average stored when a read
  of the difference fails, and \<open>new\<close> when all seven transfers succeed.
\<close>

abbreviation phase_after ::
  "regmap \<Rightarrow> nat \<Rightarrow> sx9324_phase_data \<Rightarrow> sx9324_phase_data \<Rightarrow> sx9324_phase_data" where
  "phase_after m k old new \<equiv>
     (if fault m k \<noteq> 0 \<or> fault m (k + 1) \<noteq> 0 \<or> fault m (k + 2) \<noteq> 0 then old
      else if fault m (k + 3) \<noteq> 0 \<or> fault m (k + 4) \<noteq> 0
        then old\<lparr>proxuseful := proxuseful new\<rparr>
      else if fault m (k + 5) \<noteq> 0 \<or> fault m (k + 6) \<noteq> 0
        then old\<lparr>proxuseful := proxuseful new, proxavg := proxavg new\<rparr>
      else new)"

section \<open>Example states\<close>

text \<open>
  The driver data as \<^verbatim>\<open>sx9324_probe\<close> allocates it (zeroed, both rails off), bound
  to a device with the register content \<open>rs\<close>, a bus with the fault schedule \<open>flt\<close>,
  an interrupt line showing the levels \<open>lv\<close> and rails answering \<open>rail\<close>.
\<close>

definition data_at_probe ::
  "(u32 \<Rightarrow> u8) \<Rightarrow> (nat \<Rightarrow> int) \<Rightarrow> (nat \<Rightarrow> int) \<Rightarrow> (nat \<Rightarrow> int) \<Rightarrow> sx9324_data" where
  "data_at_probe rs flt lv rail =
     \<lparr>regmap = \<lparr>regs = rs, fault = flt, trace = []\<rparr>,
      nirq_gpio = \<lparr>level = lv, sampled = 0\<rparr>,
      pullup = \<lparr>outcome = rail, calls = []\<rparr>,
      pullup_enabled = False,
      vdd = \<lparr>outcome = rail, calls = []\<rparr>,
      vdd_enabled = False,
      phdata = (\<lambda>_. \<lparr>is_valid = False, proxuseful = 0, proxavg = 0, proxdiff = 0,
                       stat = \<lparr>steady = 0, prox = 0, table = 0, body = 0, fail = 0,
                               comp_stat = 0\<rparr>\<rparr>),
      klog = []\<rparr>"

text \<open>
  Phase 0 enabled; the eighth transfer of the readback (the read of
  \<^verbatim>\<open>SX9324_AVG_MSB\<close> for phase 0) fails with \<^verbatim>\<open>-EIO\<close>.
\<close>

definition phdata_partial :: sx9324_data where
  "phdata_partial =
     data_at_probe ((\<lambda>_. 0)(SX9324_GNRL_CTRL_1 := 0x01, SX9324_USE_MSB := 0x12,
                     SX9324_USE_LSB := 0x34))
       (\<lambda>k. if k = 7 then - 5 else 0) (\<lambda>_. 0) (\<lambda>_. 0)"

text \<open>
  Phases 0 and 1 enabled; the twelfth transfer (the write of \<^verbatim>\<open>SX9324_PHASE_SEL\<close>
  for phase 1) fails.
\<close>

definition phdata_second_fails :: sx9324_data where
  "phdata_second_fails =
     data_at_probe ((\<lambda>_. 0)(SX9324_GNRL_CTRL_1 := 0x03))
       (\<lambda>k. if k = 11 then - 5 else 0) (\<lambda>_. 0) (\<lambda>_. 0)"

text \<open>Phases 0 and 2 enabled, no transfer fails.\<close>

definition phdata_two_phases :: sx9324_data where
  "phdata_two_phases =
     data_at_probe ((\<lambda>_. 0)(SX9324_GNRL_CTRL_1 := 0x05, SX9324_STAT_0 := 0x11,
                     SX9324_USE_MSB := 0xff, SX9324_USE_LSB := 0xfe))
       (\<lambda>_. 0) (\<lambda>_. 0) (\<lambda>_. 0)"

text \<open>Phase 0 enabled; the read of the enable register fails.\<close>

definition phdata_enable_fails :: sx9324_data where
  "phdata_enable_fails =
     data_at_probe ((\<lambda>_. 0)(SX9324_GNRL_CTRL_1 := 0x01))
       (\<lambda>k. if k = 0 then - 5 else 0) (\<lambda>_. 0) (\<lambda>_. 0)"

text \<open>Devices for the reset: the levels the line shows, and the bus faults.\<close>

definition reset_line_low_then_high :: sx9324_data where
  "reset_line_low_then_high =
     data_at_probe (\<lambda>_. 0) (\<lambda>_. 0) (\<lambda>k. if k = 0 then 0 else 1) (\<lambda>_. 0)"

definition reset_line_high :: sx9324_data where
  "reset_line_high = data_at_probe (\<lambda>_. 0) (\<lambda>_. 0) (\<lambda>_. 1) (\<lambda>_. 0)"

definition reset_line_low :: sx9324_data where
  "reset_line_low = data_at_probe (\<lambda>_. 0) (\<lambda>_. 0) (\<lambda>_. 0) (\<lambda>_. 0)"

definition reset_bus_fails :: sx9324_data where
  "reset_bus_fails =
     data_at_probe (\<lambda>_. 0) (\<lambda>k. if k = 0 then - 5 else 0) (\<lambda>k. if k = 0 then 0 else 1) (\<lambda>_. 0)"

text \<open>Devices for the operational mode: register contents and bus faults.\<close>

definition mode_dev_sleep :: sx9324_data where
  "mode_dev_sleep = data_at_probe (\<lambda>_. 0) (\<lambda>_. 0) (\<lambda>_. 0) (\<lambda>_. 0)"

definition mode_dev_doze :: sx9324_data where
  "mode_dev_doze =
     data_at_probe ((\<lambda>_. 0)(SX9324_GNRL_CTRL_1 := 0x21, SX9324_GNRL_CTRL_0 := 0x45))
       (\<lambda>_. 0) (\<lambda>_. 0) (\<lambda>_. 0)"

definition mode_dev_active :: sx9324_data where
  "mode_dev_active =
     data_at_probe ((\<lambda>_. 0)(SX9324_GNRL_CTRL_1 := 0x21, SX9324_GNRL_CTRL_0 := 0x05))
       (\<lambda>_. 0) (\<lambda>_. 0) (\<lambda>_. 0)"

definition mode_dev_bus_fails :: sx9324_data where
  "mode_dev_bus_fails =
     data_at_probe (\<lambda>_. 0) (\<lambda>k. if k = 0 then - 5 else 0) (\<lambda>_. 0) (\<lambda>_. 0)"

text \<open>Rails that refuse every request, and a bus that fails the third transfer.\<close>

definition rails_refuse :: sx9324_data where
  "rails_refuse = data_at_probe (\<lambda>_. 0) (\<lambda>_. 0) (\<lambda>_. 0) (\<lambda>_. - 5)"

definition third_write_fails :: sx9324_data where
  "third_write_fails =
     data_at_probe (\<lambda>_. 0) (\<lambda>k. if k = 2 then - 5 else 0) (\<lambda>_. 0) (\<lambda>_. 0)"

text \<open>Phases 0 and 1 enabled; the read of \<^verbatim>\<open>SX9324_STAT_1\<close> fails.\<close>

definition phdata_status_fails :: sx9324_data where
  "phdata_status_fails =
     data_at_probe ((\<lambda>_. 0)(SX9324_GNRL_CTRL_1 := 0x03, SX9324_USE_MSB := 0x12))
       (\<lambda>k. if k = 2 then - 5 else 0) (\<lambda>_. 0) (\<lambda>_. 0)"

text \<open>A bus that fails the first transfer.\<close>

definition first_write_fails :: sx9324_data where
  "first_write_fails =
     data_at_probe (\<lambda>_. 0) (\<lambda>k. if k = 0 then - 5 else 0) (\<lambda>_. 0) (\<lambda>_. 0)"

section \<open>Signed reconstruction and status decoding\<close>

lemma msb_lsb_word_cat:
  fixes m l :: u8
  shows "(ucast (push_bit 8 (ucast m :: u32) OR ucast l) :: 16 word) = word_cat m l"
  by (rule bit_word_eqI) (auto simp: bit_simps dest: bit_imp_le_length)

lemma uint_word_cat_bytes:
  fixes m l :: u8
  shows "uint (word_cat m l :: 16 word) = 256 * uint m + uint l"
proof -
  have m: "0 \<le> uint m" "uint m < 256" using uint_lt2p [of m] by simp_all
  have l: "0 \<le> uint l" "uint l < 256" using uint_lt2p [of l] by simp_all
  have "uint (word_cat m l :: 16 word) = take_bit 16 (concat_bit 8 (uint l) (uint m))"
    by (simp add: word_cat_eq' uint_word_of_int_eq)
  also have "concat_bit 8 (uint l) (uint m) = uint l + 256 * uint m"
    using l by (simp add: concat_bit_eq take_bit_int_eq_self push_bit_eq_mult)
  also have "take_bit 16 (uint l + 256 * uint m) = uint l + 256 * uint m"
    using m l by (simp add: take_bit_int_eq_self)
  finally show ?thesis by simp
qed

lemma sint_16_uint:
  fixes w :: "16 word"
  shows "sint w = (if uint w < 32768 then uint w else uint w - 65536)"
proof -
  have b: "0 \<le> uint w" "uint w < 65536" using uint_lt2p [of w] by simp_all
  have "sint w = take_bit 16 (uint w + 32768) - 32768"
    by (simp add: sint_uint signed_take_bit_eq_take_bit_shift)
  also have "\<dots> = (uint w + 32768) mod 65536 - 32768"
    by (simp add: take_bit_eq_mod)
  finally have s: "sint w = (uint w + 32768) mod 65536 - 32768" .
  show ?thesis
  proof (cases "uint w < 32768")
    case True
    then have "(uint w + 32768) mod 65536 = uint w + 32768"
      using b by (intro mod_pos_pos_trivial) simp_all
    with True s show ?thesis by simp
  next
    case False
    have "uint w + 32768 = (uint w - 32768) + 65536"
      by arith
    then have "(uint w + 32768) mod 65536 = ((uint w - 32768) + 65536) mod 65536"
      by (rule arg_cong)
    also have "\<dots> = (uint w - 32768) mod 65536"
      by (simp only: mod_add_self2)
    also have "\<dots> = uint w - 32768"
      using b False by (intro mod_pos_pos_trivial) simp_all
    finally show ?thesis using False s by simp
  qed
qed

text \<open>
  C6. The value the driver stores for a pair of bytes \<open>msb\<close>, \<open>lsb\<close> read from the
  device is the 16-bit concatenation of the two bytes read as two's complement:
  the number \<open>256 * msb + lsb\<close> when that is below 32768, and that number minus
  65536 otherwise. The bytes 0xFF, 0xFF give -1; 0x00, 0x01 give 1; 0x80, 0x00
  give -32768.
\<close>

theorem signed_reconstruction:
  fixes msb lsb :: u8
  shows "phdata_signed (ucast msb) (ucast lsb) = sint (word_cat msb lsb :: 16 word)
     \<and> phdata_signed (ucast msb) (ucast lsb) =
         (if 256 * uint msb + uint lsb < 32768 then 256 * uint msb + uint lsb
          else 256 * uint msb + uint lsb - 65536)
     \<and> phdata_signed 0xff 0xff = - 1
     \<and> phdata_signed 0x00 0x01 = 1
     \<and> phdata_signed 0x80 0x00 = - 32768"
proof -
  have c: "phdata_signed (ucast msb) (ucast lsb) = sint (word_cat msb lsb :: 16 word)"
    by (simp only: phdata_signed_def msb_lsb_word_cat)
  have f: "sint (word_cat msb lsb :: 16 word) =
         (if 256 * uint msb + uint lsb < 32768 then 256 * uint msb + uint lsb
          else 256 * uint msb + uint lsb - 65536)"
    by (simp only: sint_16_uint uint_word_cat_bytes)
  have v: "phdata_signed 0xff 0xff = - 1" "phdata_signed 0x00 0x01 = 1"
    "phdata_signed 0x80 0x00 = - 32768"
    by (simp_all add: phdata_signed_def)
  from c f v show ?thesis by (simp only: simp_thms)
qed

lemma bit_field_of_bool:
  fixes w :: u8
  shows "(ucast (drop_bit n (ucast w :: u32) AND 0x01) :: 1 word) = of_bool (bit w n)"
  by (rule bit_word_eqI) (auto simp: bit_simps dest: bit_imp_le_length)

text \<open>
  C7. For every phase index \<open>i\<close> and every three status bytes, the flags decoded
  for phase \<open>i\<close> are: steady = bit \<open>i + 4\<close> of status0, prox = bit \<open>i\<close> of status0,
  table = bit \<open>i + 4\<close> of status1, body = bit \<open>i\<close> of status1, fail = bit \<open>i + 4\<close> of
  status2, comp = bit \<open>i\<close> of status2. With status0 = 0b00010001 and status1 =
  status2 = 0, phase 0 has prox = 1 and steady = 1, and phases 1 to 3 have prox = 0.
\<close>

theorem status_decoding:
  fixes status0 status1 status2 :: u8
  shows "phase_stat_of i (ucast status0) (ucast status1) (ucast status2) =
       \<lparr>steady = of_bool (bit status0 (i + 4)),
        prox = of_bool (bit status0 i),
        table = of_bool (bit status1 (i + 4)),
        body = of_bool (bit status1 i),
        fail = of_bool (bit status2 (i + 4)),
        comp_stat = of_bool (bit status2 i)\<rparr>
     \<and> prox (phase_stat_of 0 0x11 0 0) = 1 \<and> steady (phase_stat_of 0 0x11 0 0) = 1
     \<and> prox (phase_stat_of 1 0x11 0 0) = 0 \<and> prox (phase_stat_of 2 0x11 0 0) = 0
     \<and> prox (phase_stat_of 3 0x11 0 0) = 0"
  by (simp add: phase_stat_of_def bit_field_of_bool)

section \<open>Register bytes as words\<close>

lemma ucast_u8_u32_eq_iff:
  fixes a b :: u8
  shows "((ucast a :: u32) = ucast b) = (a = b)"
proof
  assume e: "(ucast a :: u32) = ucast b"
  show "a = b"
  proof (rule bit_word_eqI)
    fix n assume "n < LENGTH(8)"
    then have "bit (ucast a :: u32) n = bit a n" "bit (ucast b :: u32) n = bit b n"
      by (simp_all add: bit_simps)
    with e show "bit a n = bit b n" by simp
  qed
qed simp

lemma ucast_and_bytes:
  fixes x k :: u8
  shows "(ucast x :: u32) AND ucast k = ucast (x AND k)"
  by (rule bit_word_eqI) (auto simp: bit_simps)

lemma field_zero_iff:
  fixes x k :: u8
  shows "((ucast x :: u32) AND ucast k = 0) = (x AND k = 0)"
  using ucast_u8_u32_eq_iff [of "x AND k" 0] by (simp add: ucast_and_bytes)

lemma field_zero_iffs:
  fixes x :: u8
  shows "((ucast x :: u32) AND SX9324_PHEN = 0) = (x AND 0x0f = 0)"
    "((ucast x :: u32) AND SX9324_DOZEPERIOD = 0) = (x AND 0x60 = 0)"
  using field_zero_iff [of x "0x0f"] field_zero_iff [of x "0x60"]
  by (simp_all add: reg_defs)

section \<open>Phase data readback: the snapshot\<close>

lemma readable_regs [simp]:
  "sx9324_readable_reg SX9324_IRQ_SRC" "sx9324_readable_reg SX9324_STAT_0"
  "sx9324_readable_reg SX9324_STAT_1" "sx9324_readable_reg SX9324_STAT_2"
  "sx9324_readable_reg SX9324_GNRL_CTRL_0" "sx9324_readable_reg SX9324_GNRL_CTRL_1"
  "sx9324_readable_reg SX9324_USE_MSB" "sx9324_readable_reg SX9324_USE_LSB"
  "sx9324_readable_reg SX9324_AVG_MSB" "sx9324_readable_reg SX9324_AVG_LSB"
  "sx9324_readable_reg SX9324_DIFF_MSB" "sx9324_readable_reg SX9324_DIFF_LSB"
  by (simp_all add: sx9324_readable_reg_def reg_defs)

lemma writeable_regs [simp]:
  "sx9324_writeable_reg SX9324_GNRL_CTRL_0" "sx9324_writeable_reg SX9324_GNRL_CTRL_1"
  "sx9324_writeable_reg SX9324_PHASE_SEL" "sx9324_writeable_reg SX9324_RESET"
  "sx9324_writeable_reg SX9324_IRQ_MSK" "sx9324_writeable_reg SX9324_AFE_PH_0"
  by (simp_all add: sx9324_writeable_reg_def reg_defs)

lemma regmap_read_readable:
  "sx9324_readable_reg reg \<Longrightarrow>
   regmap_read m reg =
     (fault m (length (trace m)),
      (if fault m (length (trace m)) = 0 then ucast (regs m reg) else 0),
      m\<lparr>trace := trace m @ [XRead reg]\<rparr>)"
  by (simp add: regmap_read_def Let_def)

lemma regmap_write_writeable:
  "sx9324_writeable_reg reg \<Longrightarrow>
   regmap_write m reg v =
     (fault m (length (trace m)),
      m\<lparr>trace := trace m @ [XWrite reg (ucast v)],
        regs := (if fault m (length (trace m)) = 0 then (regs m)(reg := ucast v) else regs m)\<rparr>)"
  by (simp add: regmap_write_def Let_def)

lemma read_phase_frame:
  "nirq_gpio (snd (read_phase i s0 s1 s2 d)) = nirq_gpio d"
  "pullup (snd (read_phase i s0 s1 s2 d)) = pullup d"
  "vdd (snd (read_phase i s0 s1 s2 d)) = vdd d"
  "pullup_enabled (snd (read_phase i s0 s1 s2 d)) = pullup_enabled d"
  "vdd_enabled (snd (read_phase i s0 s1 s2 d)) = vdd_enabled d"
  "klog (snd (read_phase i s0 s1 s2 d)) = klog d"
  "fault (regmap (snd (read_phase i s0 s1 s2 d))) = fault (regmap d)"
  by (simp_all add: read_phase_def regmap_read_readable regmap_write_writeable Let_def)

lemma read_phase_other:
  "j \<noteq> i \<longrightarrow> phdata (snd (read_phase i s0 s1 s2 d)) j = phdata d j"
  by (auto simp add: read_phase_def regmap_read_readable regmap_write_writeable Let_def or_eq_0_iff)

lemma read_phase_regs:
  "a \<noteq> SX9324_PHASE_SEL \<longrightarrow> regs (regmap (snd (read_phase i s0 s1 s2 d))) a = regs (regmap d) a"
  by (auto simp add: read_phase_def regmap_read_readable regmap_write_writeable Let_def or_eq_0_iff)

lemma phase_sel_distinct [simp]:
  "SX9324_USE_MSB \<noteq> SX9324_PHASE_SEL" "SX9324_USE_LSB \<noteq> SX9324_PHASE_SEL"
  "SX9324_AVG_MSB \<noteq> SX9324_PHASE_SEL" "SX9324_AVG_LSB \<noteq> SX9324_PHASE_SEL"
  "SX9324_DIFF_MSB \<noteq> SX9324_PHASE_SEL" "SX9324_DIFF_LSB \<noteq> SX9324_PHASE_SEL"
  "SX9324_STAT_0 \<noteq> SX9324_PHASE_SEL" "SX9324_STAT_1 \<noteq> SX9324_PHASE_SEL"
  "SX9324_STAT_2 \<noteq> SX9324_PHASE_SEL" "SX9324_GNRL_CTRL_1 \<noteq> SX9324_PHASE_SEL"
  by (simp_all add: reg_defs)

lemma loop_error: "e \<noteq> 0 \<Longrightarrow> read_phdata_loop i val s0 s1 s2 e d = (e, d)"
  by (subst read_phdata_loop.simps) simp

lemma loop_untouched:
  "j < i \<or> drop_bit j val AND 1 = 0 \<or> SX9324_PHASES \<le> j \<Longrightarrow>
   phdata (snd (read_phdata_loop i val s0 s1 s2 e d)) j = phdata d j"
proof (induction i val s0 s1 s2 e d rule: read_phdata_loop.induct)
  case (1 i val s0 s1 s2 e d)
  show ?case
  proof (cases "i < SX9324_PHASES \<and> e = 0")
    case False
    then show ?thesis by (subst read_phdata_loop.simps) auto
  next
    case run: True
    show ?thesis
    proof (cases "drop_bit i val AND 1 \<noteq> 0")
      case False
      with run 1 show ?thesis
        by (subst read_phdata_loop.simps) auto
    next
      case en: True
      obtain e' d' where r: "read_phase i s0 s1 s2 d = (e', d')"
        by (cases "read_phase i s0 s1 s2 d")
      from en run 1(3) have ji: "j \<noteq> i" by auto
      with r read_phase_other [of j i s0 s1 s2 d] have o: "phdata d' j = phdata d j"
        by simp
      show ?thesis
      proof (cases "e' = 0")
        case True
        with run en r 1(1) [of "(e', d')" e' d'] 1(3) o show ?thesis
          by (subst read_phdata_loop.simps) auto
      next
        case False
        with run en r o show ?thesis
          by (subst read_phdata_loop.simps) auto
      qed
    qed
  qed
qed

lemma enable_bit_iff:
  fixes en :: u8
  shows "(drop_bit j (ucast en :: u32) AND 0x01 = 0) = (\<not> bit en j)"
proof -
  have a: "bit (ucast en :: u32) j = bit en j"
    by (auto simp: bit_simps dest: bit_imp_le_length)
  have b: "(drop_bit j (ucast en :: u32) AND 0x01 = 0) = (\<not> bit (ucast en :: u32) j)"
    by (simp add: and_one_eq bit_iff_odd_drop_bit even_iff_mod_2_eq_zero)
  show ?thesis unfolding b a ..
qed

lemma fold_invalidate:
  "regmap (fold (\<lambda>i d. d\<lparr>phdata := (phdata d)(i := (phdata d i)\<lparr>is_valid := False\<rparr>)\<rparr>) xs d)
     = regmap d \<and>
   phdata (fold (\<lambda>i d. d\<lparr>phdata := (phdata d)(i := (phdata d i)\<lparr>is_valid := False\<rparr>)\<rparr>) xs d) j
     = (if j \<in> set xs then (phdata d j)\<lparr>is_valid := False\<rparr> else phdata d j)"
  by (induction xs arbitrary: d) auto

lemma invalidate_phdata_simps:
  "regmap (invalidate_phdata d) = regmap d"
  "phdata (invalidate_phdata d) j =
     (if j < SX9324_PHASES then (phdata d j)\<lparr>is_valid := False\<rparr> else phdata d j)"
  by (simp_all add: invalidate_phdata_def fold_invalidate)

lemma read_phdata_cases:
  assumes "sx9324_read_phdata d = (error, d')"
  defines "m \<equiv> regmap d"
  defines "n \<equiv> length (trace (regmap d))"
  defines "val \<equiv> (ucast (regs (regmap d) SX9324_GNRL_CTRL_1) :: u32)"
  shows "(phdata d' = phdata (invalidate_phdata d) \<and>
          (fault m n \<noteq> 0 \<or> val AND SX9324_PHEN = 0 \<or> fault m (Suc n) \<noteq> 0
           \<or> fault m (Suc (Suc n)) \<noteq> 0 \<or> fault m (Suc (Suc (Suc n))) \<noteq> 0))
       \<or> (fault m n = 0 \<and> fault m (Suc n) = 0 \<and> fault m (Suc (Suc n)) = 0
          \<and> fault m (Suc (Suc (Suc n))) = 0
          \<and> read_phdata_loop 0 val (ucast (regs m SX9324_STAT_0))
               (ucast (regs m SX9324_STAT_1)) (ucast (regs m SX9324_STAT_2)) 0
               ((invalidate_phdata d)\<lparr>regmap := m\<lparr>trace := trace m @
                  [XRead SX9324_GNRL_CTRL_1, XRead SX9324_STAT_0, XRead SX9324_STAT_1,
                   XRead SX9324_STAT_2]\<rparr>\<rparr>)
             = (error, d'))"
proof (cases "fault m n \<noteq> 0")
  case True
  with assms(1) show ?thesis
    unfolding m_def n_def val_def
    by (auto simp: sx9324_read_phdata_def regmap_read_readable invalidate_phdata_simps Let_def)
next
  case f0: False
  show ?thesis
  proof (cases "val AND SX9324_PHEN = 0")
    case True
    with f0 assms(1) show ?thesis
      unfolding m_def n_def val_def
      by (auto simp: sx9324_read_phdata_def regmap_read_readable invalidate_phdata_simps Let_def)
  next
    case en: False
    show ?thesis
    proof (cases "fault m (Suc n) = 0 \<and> fault m (Suc (Suc n)) = 0
        \<and> fault m (Suc (Suc (Suc n))) = 0")
      case True
      with f0 en assms(1) show ?thesis
        unfolding m_def n_def val_def
        by (simp add: sx9324_read_phdata_def regmap_read_readable invalidate_phdata_simps Let_def)
    next
      case f: False
      then have "(fault m (Suc n) OR fault m (Suc (Suc n))) OR fault m (Suc (Suc (Suc n))) \<noteq> 0"
        by (simp add: or_eq_0_iff)
      with f0 en f assms(1) show ?thesis
        unfolding m_def n_def val_def
        by (auto simp: sx9324_read_phdata_def regmap_read_readable invalidate_phdata_simps Let_def
            loop_error)
    qed
  qed
qed

lemma read_phase_entry:
  "phdata (snd (read_phase i s0 s1 s2 d)) i =
     phase_after (regmap d) (length (trace (regmap d)))
       (phdata d i) (entry_read (regmap d) i s0 s1 s2)"
  by (auto simp add: read_phase_def regmap_read_readable regmap_write_writeable Let_def
      or_eq_0_iff eval_nat_numeral)

lemma read_phase_error:
  "(fst (read_phase i s0 s1 s2 d) = 0) =
     (\<forall>t. length (trace (regmap d)) \<le> t \<and> t < length (trace (regmap d)) + 7
        \<longrightarrow> fault (regmap d) t = 0)"
proof -
  let ?L = "length (trace (regmap d))"
  have a: "(\<forall>t. ?L \<le> t \<and> t < ?L + 7 \<longrightarrow> fault (regmap d) t = 0) =
      (fault (regmap d) ?L = 0 \<and> fault (regmap d) (Suc ?L) = 0
       \<and> fault (regmap d) (Suc (Suc ?L)) = 0 \<and> fault (regmap d) (Suc (Suc (Suc ?L))) = 0
       \<and> fault (regmap d) (Suc (Suc (Suc (Suc ?L)))) = 0
       \<and> fault (regmap d) (Suc (Suc (Suc (Suc (Suc ?L))))) = 0
       \<and> fault (regmap d) (Suc (Suc (Suc (Suc (Suc (Suc ?L)))))) = 0)"
    (is "?A = ?B")
  proof
    assume ?A then show ?B by simp
  next
    assume b: ?B
    show ?A
    proof (intro allI impI)
      fix t assume "?L \<le> t \<and> t < ?L + 7"
      then have "t = ?L \<or> t = Suc ?L \<or> t = Suc (Suc ?L) \<or> t = Suc (Suc (Suc ?L))
        \<or> t = Suc (Suc (Suc (Suc ?L))) \<or> t = Suc (Suc (Suc (Suc (Suc ?L))))
        \<or> t = Suc (Suc (Suc (Suc (Suc (Suc ?L)))))" by arith
      with b show "fault (regmap d) t = 0" by blast
    qed
  qed
  show ?thesis unfolding a
    by (auto simp add: read_phase_def regmap_read_readable regmap_write_writeable Let_def
      or_eq_0_iff)
qed

lemma read_phase_trace:
  "fst (read_phase i s0 s1 s2 d) = 0 \<longrightarrow>
     length (trace (regmap (snd (read_phase i s0 s1 s2 d)))) = length (trace (regmap d)) + 7"
  by (auto simp add: read_phase_def regmap_read_readable regmap_write_writeable Let_def
      or_eq_0_iff)

lemma loop_entry:
  assumes "e = 0" "i0 \<le> j" "j < SX9324_PHASES"
  shows "phdata (snd (read_phdata_loop i0 val s0 s1 s2 e d)) j =
     (if drop_bit j val AND 0x01 = 0
         \<or> (\<exists>t. length (trace (regmap d)) \<le> t
                \<and> t < length (trace (regmap d))
                      + 7 * length (filter (\<lambda>t. drop_bit t val AND 0x01 \<noteq> 0) [i0..<j])
                \<and> fault (regmap d) t \<noteq> 0)
      then phdata d j
      else phase_after (regmap d)
             (length (trace (regmap d))
                + 7 * length (filter (\<lambda>t. drop_bit t val AND 0x01 \<noteq> 0) [i0..<j]))
             (phdata d j) (entry_read (regmap d) j s0 s1 s2))"
  using assms
proof (induction i0 val s0 s1 s2 e d rule: read_phdata_loop.induct)
  case (1 i val s0 s1 s2 e d)
  let ?E = "\<lambda>t. drop_bit t val AND 0x01 \<noteq> 0"
  let ?m = "regmap d"
  let ?L = "length (trace ?m)"
  from 1(3,4,5) have run: "i < SX9324_PHASES \<and> e = 0" by simp
  show ?case
  proof (cases "drop_bit i val AND 1 \<noteq> 0")
    case False
    with run have u: "read_phdata_loop i val s0 s1 s2 e d =
        read_phdata_loop (i + 1) val s0 s1 s2 e d"
      by (subst read_phdata_loop.simps) auto
    show ?thesis
    proof (cases "j = i")
      case True
      with False loop_untouched [of j i val s0 s1 s2 e d] show ?thesis by simp
    next
      case ne: False
      with 1(4) have lt: "i + 1 \<le> j" "i < j" by simp_all
      have f: "filter ?E [i..<j] = filter ?E [i + 1..<j]"
        using lt(2) False by (simp add: upt_conv_Cons)
      from 1(2) [OF run False 1(3) lt(1) 1(5)] show ?thesis
        unfolding u f .
    qed
  next
    case en: True
    obtain e' d' where r: "read_phase i s0 s1 s2 d = (e', d')"
      by (cases "read_phase i s0 s1 s2 d")
    have o: "k \<noteq> i \<Longrightarrow> phdata d' k = phdata d k" for k
      using r read_phase_other [of k i s0 s1 s2 d] by simp
    have ent: "phdata d' i = phase_after ?m ?L (phdata d i) (entry_read ?m i s0 s1 s2)"
      using r read_phase_entry [of i s0 s1 s2 d] by simp
    have err: "(e' = 0) = (\<forall>t. ?L \<le> t \<and> t < ?L + 7 \<longrightarrow> fault ?m t = 0)"
      using r read_phase_error [of i s0 s1 s2 d] by simp
    have fl: "fault (regmap d') = fault ?m"
      using r read_phase_frame(7) [of i s0 s1 s2 d] by simp
    have g: "entry_read (regmap d') j s0 s1 s2 = entry_read ?m j s0 s1 s2"
      using r read_phase_regs [of _ i s0 s1 s2 d] by simp
    show ?thesis
    proof (cases "j = i")
      case True
      have "phdata (snd (read_phdata_loop i val s0 s1 s2 e d)) i = phdata d' i"
      proof (cases "e' = 0")
        case True
        with run en r have u: "read_phdata_loop i val s0 s1 s2 e d =
            read_phdata_loop (i + 1) val s0 s1 s2 e' d'"
          by (subst read_phdata_loop.simps) auto
        show ?thesis unfolding u by (rule loop_untouched) simp
      next
        case False
        with run en r show ?thesis
          by (subst read_phdata_loop.simps) auto
      qed
      then have first: "phdata (snd (read_phdata_loop i val s0 s1 s2 e d)) i =
          phase_after ?m ?L (phdata d i) (entry_read ?m i s0 s1 s2)"
        unfolding ent .
      have c: "\<not> (drop_bit i val AND 0x01 = 0
         \<or> (\<exists>t. ?L \<le> t \<and> t < ?L \<and> fault ?m t \<noteq> 0))"
        using en by auto
      have z: "?L + 7 * length (filter ?E [i..<i]) = ?L" by simp
      show ?thesis unfolding True z if_not_P [OF c] by (rule first)
    next
      case ne: False
      with 1(4) have lt: "i + 1 \<le> j" "i < j" by simp_all
      have f: "length (filter ?E [i..<j]) = Suc (length (filter ?E [i + 1..<j]))"
        using lt(2) en by (simp add: upt_conv_Cons)
      let ?c = "length (filter ?E [i + 1..<j])"
      show ?thesis
      proof (cases "e' = 0")
        case False
        with run en r have u: "read_phdata_loop i val s0 s1 s2 e d = (e', d')"
          by (subst read_phdata_loop.simps) auto
        from False err obtain t where "?L \<le> t" "t < ?L + 7" "fault ?m t \<noteq> 0"
          by blast
        then have "\<exists>t. ?L \<le> t \<and> t < ?L + 7 * length (filter ?E [i..<j]) \<and> fault ?m t \<noteq> 0"
          unfolding f by (intro exI [of _ t]) simp
        then have c: "drop_bit j val AND 0x01 = 0
            \<or> (\<exists>t. ?L \<le> t \<and> t < ?L + 7 * length (filter ?E [i..<j]) \<and> fault ?m t \<noteq> 0)"
          by (rule disjI2)
        show ?thesis unfolding u if_P [OF c] using o [OF ne] by simp
      next
        case True
        with run en r have u: "read_phdata_loop i val s0 s1 s2 e d =
            read_phdata_loop (i + 1) val s0 s1 s2 e' d'"
          by (subst read_phdata_loop.simps) auto
        have tl: "length (trace (regmap d')) = ?L + 7"
          using r True read_phase_trace [of i s0 s1 s2 d] by simp
        have k: "length (trace (regmap d')) + 7 * ?c = ?L + 7 * length (filter ?E [i..<j])"
          unfolding tl f by simp
        have ex: "(\<exists>t. length (trace (regmap d')) \<le> t
              \<and> t < length (trace (regmap d')) + 7 * ?c \<and> fault (regmap d') t \<noteq> 0)
            = (\<exists>t. ?L \<le> t \<and> t < ?L + 7 * length (filter ?E [i..<j]) \<and> fault ?m t \<noteq> 0)"
          unfolding k fl unfolding tl using True err
          by (metis add_leD1 not_le_imp_less)
        have ne': "\<not> e' \<noteq> 0" using True by simp
        from 1(1) [OF run en refl r [symmetric] ne' True lt(1) 1(5)]
        show ?thesis
          unfolding u ex unfolding k fl g o [OF ne] .
      qed
    qed
  qed
qed

lemma loop_error_iff:
  assumes "e = 0" "i0 \<le> SX9324_PHASES"
  shows "(fst (read_phdata_loop i0 val s0 s1 s2 e d) = 0) =
     (\<forall>t. length (trace (regmap d)) \<le> t
          \<and> t < length (trace (regmap d))
                + 7 * length (filter (\<lambda>t. drop_bit t val AND 0x01 \<noteq> 0) [i0..<SX9324_PHASES])
        \<longrightarrow> fault (regmap d) t = 0)"
  using assms
proof (induction i0 val s0 s1 s2 e d rule: read_phdata_loop.induct)
  case (1 i val s0 s1 s2 e d)
  let ?E = "\<lambda>t. drop_bit t val AND 0x01 \<noteq> 0"
  let ?m = "regmap d"
  let ?L = "length (trace ?m)"
  show ?case
  proof (cases "i < SX9324_PHASES")
    case False
    with 1(4) have "i = SX9324_PHASES" by simp
    with 1(3) show ?thesis by (subst read_phdata_loop.simps) simp
  next
    case lt: True
    with 1(3) have run: "i < SX9324_PHASES \<and> e = 0" by simp
    from lt have le: "i + 1 \<le> SX9324_PHASES" by simp
    show ?thesis
    proof (cases "drop_bit i val AND 1 \<noteq> 0")
      case False
      with run have u: "read_phdata_loop i val s0 s1 s2 e d =
          read_phdata_loop (i + 1) val s0 s1 s2 e d"
        by (subst read_phdata_loop.simps) auto
      have f: "filter ?E [i..<SX9324_PHASES] = filter ?E [i + 1..<SX9324_PHASES]"
        using lt False by (simp add: upt_conv_Cons)
      from 1(2) [OF run False 1(3) le] show ?thesis unfolding u f .
    next
      case en: True
      obtain e' d' where r: "read_phase i s0 s1 s2 d = (e', d')"
        by (cases "read_phase i s0 s1 s2 d")
      have err: "(e' = 0) = (\<forall>t. ?L \<le> t \<and> t < ?L + 7 \<longrightarrow> fault ?m t = 0)"
        using r read_phase_error [of i s0 s1 s2 d] by simp
      have fl: "fault (regmap d') = fault ?m"
        using r read_phase_frame(7) [of i s0 s1 s2 d] by simp
      let ?c = "length (filter ?E [i + 1..<SX9324_PHASES])"
      have f: "length (filter ?E [i..<SX9324_PHASES]) = Suc ?c"
        using lt en by (simp add: upt_conv_Cons)
      show ?thesis
      proof (cases "e' = 0")
        case False
        with run en r have u: "read_phdata_loop i val s0 s1 s2 e d = (e', d')"
          by (subst read_phdata_loop.simps) auto
        from False err obtain t where "?L \<le> t" "t < ?L + 7" "fault ?m t \<noteq> 0"
          by blast
        then have "\<not> (\<forall>t. ?L \<le> t \<and> t < ?L + 7 * length (filter ?E [i..<SX9324_PHASES])
            \<longrightarrow> fault ?m t = 0)"
          unfolding f by (intro notI) (drule spec [of _ t], simp)
        with False show ?thesis unfolding u by simp
      next
        case True
        with run en r have u: "read_phdata_loop i val s0 s1 s2 e d =
            read_phdata_loop (i + 1) val s0 s1 s2 e' d'"
          by (subst read_phdata_loop.simps) auto
        have tl: "length (trace (regmap d')) = ?L + 7"
          using r True read_phase_trace [of i s0 s1 s2 d] by simp
        have k: "length (trace (regmap d')) + 7 * ?c
            = ?L + 7 * length (filter ?E [i..<SX9324_PHASES])"
          unfolding tl f by simp
        have ex: "(\<forall>t. length (trace (regmap d')) \<le> t
              \<and> t < length (trace (regmap d')) + 7 * ?c \<longrightarrow> fault (regmap d') t = 0)
            = (\<forall>t. ?L \<le> t \<and> t < ?L + 7 * length (filter ?E [i..<SX9324_PHASES])
                 \<longrightarrow> fault ?m t = 0)"
          unfolding k fl unfolding tl using True err
          by (metis add_leD1 not_le_imp_less)
        have ne': "\<not> e' \<noteq> 0" using True by simp
        from 1(1) [OF run en refl r [symmetric] ne' True le]
        show ?thesis unfolding u ex .
      qed
    qed
  qed
qed

lemma enable_pred:
  fixes en :: u8
  shows "(\<lambda>t. drop_bit t (ucast en :: u32) AND 0x01 \<noteq> 0) = bit en"
  by (rule ext) (simp add: enable_bit_iff)

lemma enable_bit_phen:
  fixes en :: u8
  assumes "i < SX9324_PHASES" "bit en i"
  shows "(ucast en :: u32) AND SX9324_PHEN \<noteq> 0"
proof
  assume z: "(ucast en :: u32) AND SX9324_PHEN = 0"
  have p: "SX9324_PHEN = mask 4" by (simp add: SX9324_PHEN_def mask_eq_exp_minus_1)
  have "bit ((ucast en :: u32) AND SX9324_PHEN) i"
    using assms unfolding p by (simp add: bit_simps SX9324_PHASES_def)
  with z show False by simp
qed

lemma first_four:
  assumes "f n = 0" "f (Suc n) = 0" "f (Suc (Suc n)) = 0" "f (Suc (Suc (Suc n))) = (0::int)"
    and "n \<le> t" "f t \<noteq> 0"
  shows "n + 4 \<le> t"
proof (rule ccontr)
  assume "\<not> n + 4 \<le> t"
  with assms(5) have "t = n \<or> t = Suc n \<or> t = Suc (Suc n) \<or> t = Suc (Suc (Suc n))"
    by arith
  with assms(1-4,6) show False by auto
qed

lemma read_phdata_error:
  "fst (sx9324_read_phdata d) =
     (let m = regmap d; n = length (trace m);
          val = (ucast (regs m SX9324_GNRL_CTRL_1) :: u32)
      in if fault m n \<noteq> 0 then fault m n
         else if val AND SX9324_PHEN = 0 then 0
         else if fault m (Suc n) = 0 \<and> fault m (Suc (Suc n)) = 0
                 \<and> fault m (Suc (Suc (Suc n))) = 0
           then fst (read_phdata_loop 0 val (ucast (regs m SX9324_STAT_0))
                  (ucast (regs m SX9324_STAT_1)) (ucast (regs m SX9324_STAT_2)) 0
                  ((invalidate_phdata d)\<lparr>regmap := m\<lparr>trace := trace m @
                     [XRead SX9324_GNRL_CTRL_1, XRead SX9324_STAT_0, XRead SX9324_STAT_1,
                      XRead SX9324_STAT_2]\<rparr>\<rparr>))
         else (fault m (Suc n) OR fault m (Suc (Suc n))) OR fault m (Suc (Suc (Suc n))))"
proof (cases "fault (regmap d) (length (trace (regmap d))) \<noteq> 0")
  case True
  then show ?thesis
    by (simp add: sx9324_read_phdata_def regmap_read_readable invalidate_phdata_simps Let_def)
next
  case f0: False
  show ?thesis
  proof (cases "(ucast (regs (regmap d) SX9324_GNRL_CTRL_1) :: u32) AND SX9324_PHEN = 0")
    case True
    with f0 show ?thesis
      by (simp add: sx9324_read_phdata_def regmap_read_readable invalidate_phdata_simps Let_def)
  next
    case en: False
    show ?thesis
    proof (cases "fault (regmap d) (Suc (length (trace (regmap d)))) = 0
        \<and> fault (regmap d) (Suc (Suc (length (trace (regmap d))))) = 0
        \<and> fault (regmap d) (Suc (Suc (Suc (length (trace (regmap d)))))) = 0")
      case True
      with f0 en show ?thesis
        by (simp add: sx9324_read_phdata_def regmap_read_readable invalidate_phdata_simps Let_def)
    next
      case f: False
      then have "(fault (regmap d) (Suc (length (trace (regmap d))))
          OR fault (regmap d) (Suc (Suc (length (trace (regmap d))))))
          OR fault (regmap d) (Suc (Suc (Suc (length (trace (regmap d)))))) \<noteq> 0"
        by (simp add: or_eq_0_iff)
      with f0 en f show ?thesis
        by (auto simp: sx9324_read_phdata_def regmap_read_readable invalidate_phdata_simps Let_def
            loop_error)
    qed
  qed
qed

text \<open>
  C1 (amended). For every call of the readback, whatever it returns, and every
  phase \<open>i\<close>, with \<open>k\<close> the position on the bus of the phase select of phase
  \<open>i\<close> (after the read of the enable register, the three status reads and seven
  transfers for each enabled phase before \<open>i\<close>):

  \<^item> the entry afterwards is the entry as it was before the call with only the
    validity flag cleared (its measurement fields are kept, not reset to zero)
    when the enable bit of the phase is clear, or when a transfer before \<open>k\<close>
    fails (the read of the enable register, a status read, or a transfer of an
    earlier phase), or when the phase select or a read of the useful value of
    this phase fails;
  \<^item> it is that entry with the new useful value (and the new average) stored,
    still invalid, when a read of the average (of the difference) of this phase
    fails: this is the one phase at which a readback broke after its first
    value was stored;
  \<^item> otherwise it is valid and all its fields are the ones this call read.

  So an entry that is valid afterwards belongs to a phase whose bit is set in the
  enable register read by this call, every transfer of the call up to the end of
  that phase succeeded, and stale data is never reported as valid. The call
  returns 0 exactly when the read of the enable register succeeds and, if a phase
  is enabled, the status reads and the transfers of all enabled phases succeed.
\<close>

theorem read_phdata_snapshot:
  assumes "sx9324_read_phdata d = (error, d')" and "i < SX9324_PHASES"
  defines "m \<equiv> regmap d"
  defines "n \<equiv> length (trace (regmap d))"
  defines "en \<equiv> regs (regmap d) SX9324_GNRL_CTRL_1"
  defines "k \<equiv> length (trace (regmap d)) + 4
                 + 7 * length (filter (bit (regs (regmap d) SX9324_GNRL_CTRL_1)) [0..<i])"
  defines "old \<equiv> (phdata d i)\<lparr>is_valid := False\<rparr>"
  defines "new \<equiv> entry_read (regmap d) i (ucast (regs (regmap d) SX9324_STAT_0))
                   (ucast (regs (regmap d) SX9324_STAT_1)) (ucast (regs (regmap d) SX9324_STAT_2))"
  shows "phdata d' i =
           (if \<not> bit en i \<or> (\<exists>t\<in>{n..<k}. fault m t \<noteq> 0) then old
            else phase_after m k old new)
       \<and> (is_valid (phdata d' i) \<longrightarrow>
            bit en i \<and> (\<forall>t\<in>{n..<k + 7}. fault m t = 0) \<and> phdata d' i = new)
       \<and> ((error = 0) =
            (fault m n = 0
             \<and> (en AND 0x0f = 0
                \<or> (\<forall>t\<in>{n..<n + 4 + 7 * length (filter (bit en) [0..<SX9324_PHASES])}.
                      fault m t = 0))))"
proof -
  let ?val = "ucast en :: u32"
  let ?s0 = "ucast (regs m SX9324_STAT_0) :: u32"
  let ?s1 = "ucast (regs m SX9324_STAT_1) :: u32"
  let ?s2 = "ucast (regs m SX9324_STAT_2) :: u32"
  let ?d3 = "(invalidate_phdata d)\<lparr>regmap := m\<lparr>trace := trace m @
                  [XRead SX9324_GNRL_CTRL_1, XRead SX9324_STAT_0, XRead SX9324_STAT_1,
                   XRead SX9324_STAT_2]\<rparr>\<rparr>"
  have kn: "n + 4 \<le> k" unfolding k_def n_def by simp
  have inv: "phdata (invalidate_phdata d) i = old"
    using assms(2) unfolding old_def by (simp add: invalidate_phdata_simps)
  have d3: "phdata ?d3 i = old" "fault (regmap ?d3) = fault m" "regs (regmap ?d3) = regs m"
    "length (trace (regmap ?d3)) = n + 4"
    using inv unfolding n_def m_def by simp_all
  have oldv: "\<not> is_valid old" unfolding old_def by simp
  have newv: "is_valid new" unfolding new_def by simp
  note cs = read_phdata_cases [OF assms(1), folded m_def n_def en_def]
  have A: "phdata d' i =
           (if \<not> bit en i \<or> (\<exists>t\<in>{n..<k}. fault m t \<noteq> 0) then old
            else phase_after m k old new)"
   and E: "(error = 0) =
            (fault m n = 0
             \<and> (en AND 0x0f = 0
                \<or> (\<forall>t\<in>{n..<n + 4 + 7 * length (filter (bit en) [0..<SX9324_PHASES])}.
                      fault m t = 0)))"
  proof -
    from cs consider
      (early) "phdata d' = phdata (invalidate_phdata d)"
        "fault m n \<noteq> 0 \<or> ?val AND SX9324_PHEN = 0 \<or> fault m (Suc n) \<noteq> 0
           \<or> fault m (Suc (Suc n)) \<noteq> 0 \<or> fault m (Suc (Suc (Suc n))) \<noteq> 0"
    | (loop) "fault m n = 0" "fault m (Suc n) = 0" "fault m (Suc (Suc n)) = 0"
        "fault m (Suc (Suc (Suc n))) = 0"
        "read_phdata_loop 0 ?val ?s0 ?s1 ?s2 0 ?d3 = (error, d')"
      by blast
    then have "phdata d' i =
           (if \<not> bit en i \<or> (\<exists>t\<in>{n..<k}. fault m t \<noteq> 0) then old
            else phase_after m k old new)"
    proof cases
      case early
      have c: "\<not> bit en i \<or> (\<exists>t\<in>{n..<k}. fault m t \<noteq> 0)"
      proof (cases "bit en i")
        case True
        with enable_bit_phen [OF assms(2)] have "?val AND SX9324_PHEN \<noteq> 0" .
        with early(2) have "fault m n \<noteq> 0 \<or> fault m (Suc n) \<noteq> 0
           \<or> fault m (Suc (Suc n)) \<noteq> 0 \<or> fault m (Suc (Suc (Suc n))) \<noteq> 0"
          by blast
        then have "\<exists>t. n \<le> t \<and> t < n + 4 \<and> fault m t \<noteq> 0"
        proof (elim disjE)
          assume "fault m n \<noteq> 0"
          then show ?thesis by (intro exI [of _ n]) simp
        next
          assume "fault m (Suc n) \<noteq> 0"
          then show ?thesis by (intro exI [of _ "Suc n"]) simp
        next
          assume "fault m (Suc (Suc n)) \<noteq> 0"
          then show ?thesis by (intro exI [of _ "Suc (Suc n)"]) simp
        next
          assume "fault m (Suc (Suc (Suc n))) \<noteq> 0"
          then show ?thesis by (intro exI [of _ "Suc (Suc (Suc n))"]) simp
        qed
        then obtain t where "n \<le> t" "t < n + 4" "fault m t \<noteq> 0"
          by blast
        with kn have "t \<in> {n..<k}" by simp
        with \<open>fault m t \<noteq> 0\<close> show ?thesis by blast
      qed simp
      show ?thesis unfolding if_P [OF c] using early(1) inv by simp
    next
      case loop
      define d3 where "d3 = ?d3"
      have p: "snd (read_phdata_loop 0 ?val ?s0 ?s1 ?s2 0 d3) = d'"
        "phdata d3 i = old" "fault (regmap d3) = fault m" "regs (regmap d3) = regs m"
        "length (trace (regmap d3)) = n + 4"
        using loop(5) d3 unfolding d3_def by simp_all
      have newm: "entry_read m i ?s0 ?s1 ?s2 = new"
        unfolding new_def m_def ..
      have kk: "n + 4 + 7 * length (filter (bit en) [0..<i]) = k"
        unfolding k_def n_def en_def ..
      note ff = first_four [of "fault m" n, OF loop(1-4)]
      have ex: "(\<exists>t. n + 4 \<le> t \<and> t < k \<and> fault m t \<noteq> 0) = (\<exists>t\<in>{n..<k}. fault m t \<noteq> 0)"
      proof
        assume "\<exists>t. n + 4 \<le> t \<and> t < k \<and> fault m t \<noteq> 0"
        then obtain t where "n + 4 \<le> t" "t < k" "fault m t \<noteq> 0" by blast
        then have "t \<in> {n..<k}" by simp
        with \<open>fault m t \<noteq> 0\<close> show "\<exists>t\<in>{n..<k}. fault m t \<noteq> 0" by blast
      next
        assume "\<exists>t\<in>{n..<k}. fault m t \<noteq> 0"
        then obtain t where t: "n \<le> t" "t < k" "fault m t \<noteq> 0" by auto
        from ff [OF t(1) t(3)] t show "\<exists>t. n + 4 \<le> t \<and> t < k \<and> fault m t \<noteq> 0"
          by blast
      qed
      have b: "(drop_bit i ?val AND 0x01 = 0) = (\<not> bit en i)"
        by (rule enable_bit_iff)
      from loop_entry [of 0 0 i ?val ?s0 ?s1 ?s2 d3, OF refl le0 assms(2)]
      show ?thesis
        unfolding p enable_pred b unfolding kk ex newm .
    qed
    then show "phdata d' i =
           (if \<not> bit en i \<or> (\<exists>t\<in>{n..<k}. fault m t \<noteq> 0) then old
            else phase_after m k old new)" .
    have e0: "error = fst (sx9324_read_phdata d)" using assms(1) by simp
    show "(error = 0) =
            (fault m n = 0
             \<and> (en AND 0x0f = 0
                \<or> (\<forall>t\<in>{n..<n + 4 + 7 * length (filter (bit en) [0..<SX9324_PHASES])}.
                      fault m t = 0)))"
    proof (cases "fault m n \<noteq> 0")
      case True
      then show ?thesis unfolding e0 m_def n_def
        by (simp add: read_phdata_error Let_def)
    next
      case f0: False
      show ?thesis
      proof (cases "?val AND SX9324_PHEN = 0")
        case True
        with f0 show ?thesis unfolding e0 m_def n_def en_def
          by (simp add: read_phdata_error Let_def field_zero_iffs)
      next
        case nz: False
        then have nz': "en AND 0x0f \<noteq> 0" by (simp add: field_zero_iffs)
        let ?c = "length (filter (bit en) [0..<SX9324_PHASES])"
        show ?thesis
        proof (cases "fault m (Suc n) = 0 \<and> fault m (Suc (Suc n)) = 0
            \<and> fault m (Suc (Suc (Suc n))) = 0")
          case ok: True
          define d3 where "d3 = ?d3"
          have p: "fault (regmap d3) = fault m" "length (trace (regmap d3)) = n + 4"
            using d3 unfolding d3_def by simp_all
          have l: "error = fst (read_phdata_loop 0 ?val ?s0 ?s1 ?s2 0 d3)"
            using f0 nz ok unfolding e0 m_def n_def en_def d3_def
            by (simp add: read_phdata_error Let_def)
          note ff = first_four [of "fault m" n]
          have q: "(\<forall>t. n + 4 \<le> t \<and> t < n + 4 + 7 * ?c \<longrightarrow> fault m t = 0)
              = (\<forall>t\<in>{n..<n + 4 + 7 * ?c}. fault m t = 0)"
          proof
            assume h: "\<forall>t. n + 4 \<le> t \<and> t < n + 4 + 7 * ?c \<longrightarrow> fault m t = 0"
            show "\<forall>t\<in>{n..<n + 4 + 7 * ?c}. fault m t = 0"
            proof
              fix t assume t: "t \<in> {n..<n + 4 + 7 * ?c}"
              show "fault m t = 0"
              proof (rule ccontr)
                assume x: "fault m t \<noteq> 0"
                from t have "n \<le> t" by simp
                with ff x f0 ok have "n + 4 \<le> t" by blast
                with h t x show False by simp
              qed
            qed
          next
            assume "\<forall>t\<in>{n..<n + 4 + 7 * ?c}. fault m t = 0"
            then show "\<forall>t. n + 4 \<le> t \<and> t < n + 4 + 7 * ?c \<longrightarrow> fault m t = 0"
              by simp
          qed
          from loop_error_iff [of 0 0 ?val ?s0 ?s1 ?s2 d3, OF refl le0]
          have "(error = 0) = (\<forall>t\<in>{n..<n + 4 + 7 * ?c}. fault m t = 0)"
            unfolding l p enable_pred q .
          with f0 nz' show ?thesis by simp
        next
          case bad: False
          then have "(fault m (Suc n) OR fault m (Suc (Suc n))) OR fault m (Suc (Suc (Suc n))) \<noteq> 0"
            by (simp add: or_eq_0_iff)
          with f0 nz bad have ne: "error \<noteq> 0" unfolding e0 m_def n_def en_def
            by (auto simp add: read_phdata_error Let_def)
          from bad have "\<exists>t\<in>{n..<n + 4 + 7 * ?c}. fault m t \<noteq> 0"
          proof (elim disjE de_Morgan_conj [THEN iffD1, elim_format])
            assume "fault m (Suc n) \<noteq> 0"
            then show ?thesis by (intro bexI [of _ "Suc n"]) simp_all
          next
            assume "fault m (Suc (Suc n)) \<noteq> 0"
            then show ?thesis by (intro bexI [of _ "Suc (Suc n)"]) simp_all
          next
            assume "fault m (Suc (Suc (Suc n))) \<noteq> 0"
            then show ?thesis by (intro bexI [of _ "Suc (Suc (Suc n))"]) simp_all
          qed
          with ne nz' show ?thesis by auto
        qed
      qed
    qed
  qed
  have B: "is_valid (phdata d' i) \<longrightarrow>
            bit en i \<and> (\<forall>t\<in>{n..<k + 7}. fault m t = 0) \<and> phdata d' i = new"
  proof
    assume v: "is_valid (phdata d' i)"
    have c: "\<not> (\<not> bit en i \<or> (\<exists>t\<in>{n..<k}. fault m t \<noteq> 0))"
    proof
      assume c: "\<not> bit en i \<or> (\<exists>t\<in>{n..<k}. fault m t \<noteq> 0)"
      from A have "phdata d' i = old" unfolding if_P [OF c] .
      with v oldv show False by simp
    qed
    from A have pa: "phdata d' i = phase_after m k old new" unfolding if_not_P [OF c] .
    from pa v oldv have f: "fault m k = 0" "fault m (k + 1) = 0" "fault m (k + 2) = 0"
      "fault m (k + 3) = 0" "fault m (k + 4) = 0" "fault m (k + 5) = 0" "fault m (k + 6) = 0"
      by (simp_all split: if_splits)
    with pa have n: "phdata d' i = new" by simp
    have "fault m t = 0" if t: "t \<in> {n..<k + 7}" for t
    proof (cases "t < k")
      case True
      with t c show ?thesis by auto
    next
      case False
      with t have "t = k \<or> t = k + 1 \<or> t = k + 2 \<or> t = k + 3 \<or> t = k + 4 \<or> t = k + 5
          \<or> t = k + 6" by auto
      with f show ?thesis by blast
    qed
    with c n show "bit en i \<and> (\<forall>t\<in>{n..<k + 7}. fault m t = 0) \<and> phdata d' i = new"
      by blast
  qed
  from A B E show ?thesis by (intro conjI)
qed

text \<open>
  The claim as first stated fails. When the read of \<^verbatim>\<open>SX9324_AVG_MSB\<close> fails for
  phase 0, entry 0 is invalid although its \<open>proxuseful\<close> field, 0 before the call,
  now holds 0x1234. When the phase select of phase 1 fails, the call returns the
  error and entry 0 is valid.
\<close>

theorem read_phdata_snapshot_counterexample:
  "fst (sx9324_read_phdata phdata_partial) = - 5
   \<and> \<not> is_valid (phdata (snd (sx9324_read_phdata phdata_partial)) 0)
   \<and> proxuseful (phdata phdata_partial 0) = 0
   \<and> proxuseful (phdata (snd (sx9324_read_phdata phdata_partial)) 0) = 4660
   \<and> fst (sx9324_read_phdata phdata_second_fails) = - 5
   \<and> is_valid (phdata (snd (sx9324_read_phdata phdata_second_fails)) 0)"
  by code_simp

text \<open>
  The snapshot theorem at work: a phase read without faults, a disabled phase, a
  failed read of the enable register, a failed status read, a failed phase select
  of the second phase, and a read of the average that fails after the useful
  value was stored.
\<close>

theorem read_phdata_snapshot_witness:
  "is_valid (phdata (snd (sx9324_read_phdata phdata_two_phases)) 0)
   \<and> bit (regs (regmap phdata_two_phases) SX9324_GNRL_CTRL_1) 0
   \<and> proxuseful (phdata (snd (sx9324_read_phdata phdata_two_phases)) 0) = - 2
   \<and> prox (stat (phdata (snd (sx9324_read_phdata phdata_two_phases)) 0)) = 1
   \<and> fst (sx9324_read_phdata phdata_two_phases) = 0
   \<and> phdata (snd (sx9324_read_phdata phdata_two_phases)) 1
       = (phdata phdata_two_phases 1)\<lparr>is_valid := False\<rparr>
   \<and> phdata (snd (sx9324_read_phdata phdata_enable_fails)) 0
       = (phdata phdata_enable_fails 0)\<lparr>is_valid := False\<rparr>
   \<and> phdata (snd (sx9324_read_phdata phdata_status_fails)) 0
       = (phdata phdata_status_fails 0)\<lparr>is_valid := False\<rparr>
   \<and> phdata (snd (sx9324_read_phdata phdata_second_fails)) 1
       = (phdata phdata_second_fails 1)\<lparr>is_valid := False\<rparr>
   \<and> phdata (snd (sx9324_read_phdata phdata_partial)) 0
       = (phdata phdata_partial 0)\<lparr>is_valid := False, proxuseful := 4660\<rparr>
   \<and> fst (sx9324_read_phdata phdata_partial) \<noteq> 0"
proof -
  have p: "0 < SX9324_PHASES" "1 < SX9324_PHASES" by (simp_all add: SX9324_PHASES_def)
  note defs = phdata_two_phases_def phdata_enable_fails_def phdata_status_fails_def
    phdata_second_fails_def phdata_partial_def data_at_probe_def reg_defs
  note a0 = read_phdata_snapshot [OF surjective_pairing p(1), of phdata_two_phases]
  note a1 = read_phdata_snapshot [OF surjective_pairing p(2), of phdata_two_phases]
  note b0 = read_phdata_snapshot [OF surjective_pairing p(1), of phdata_enable_fails]
  note c0 = read_phdata_snapshot [OF surjective_pairing p(1), of phdata_status_fails]
  note d1 = read_phdata_snapshot [OF surjective_pairing p(2), of phdata_second_fails]
  note e0 = read_phdata_snapshot [OF surjective_pairing p(1), of phdata_partial]
  have l: "length (filter (bit (1 :: u8)) [0..<4]) = 1" by code_simp
  have v: "is_valid (phdata (snd (sx9324_read_phdata phdata_two_phases)) 0)"
    by (subst a0 [THEN conjunct1]) (simp add: defs)
  from a0 [THEN conjunct2, THEN conjunct1, rule_format, OF v]
  have w: "bit (regs (regmap phdata_two_phases) SX9324_GNRL_CTRL_1) 0"
    "proxuseful (phdata (snd (sx9324_read_phdata phdata_two_phases)) 0) = - 2"
    "prox (stat (phdata (snd (sx9324_read_phdata phdata_two_phases)) 0)) = 1"
    by (simp_all add: defs phdata_signed_def phase_stat_of_def)
  have x: "fst (sx9324_read_phdata phdata_two_phases) = 0"
    by (subst a0 [THEN conjunct2, THEN conjunct2]) (simp add: defs)
  have y1: "phdata (snd (sx9324_read_phdata phdata_two_phases)) 1
       = (phdata phdata_two_phases 1)\<lparr>is_valid := False\<rparr>"
    by (subst a1 [THEN conjunct1]) (simp add: defs)
  have y2: "phdata (snd (sx9324_read_phdata phdata_enable_fails)) 0
       = (phdata phdata_enable_fails 0)\<lparr>is_valid := False\<rparr>"
    by (subst b0 [THEN conjunct1]) (simp add: defs)
  have y3: "phdata (snd (sx9324_read_phdata phdata_status_fails)) 0
       = (phdata phdata_status_fails 0)\<lparr>is_valid := False\<rparr>"
    by (subst c0 [THEN conjunct1]) (simp add: defs)
  have y4: "phdata (snd (sx9324_read_phdata phdata_second_fails)) 1
       = (phdata phdata_second_fails 1)\<lparr>is_valid := False\<rparr>"
    by (subst d1 [THEN conjunct1]) (simp add: defs)
  have y5: "phdata (snd (sx9324_read_phdata phdata_partial)) 0
       = (phdata phdata_partial 0)\<lparr>is_valid := False, proxuseful := 4660\<rparr>"
    by (subst e0 [THEN conjunct1]) (simp add: defs phdata_signed_def)
  have z: "fst (sx9324_read_phdata phdata_partial) \<noteq> 0"
    by (subst e0 [THEN conjunct2, THEN conjunct2]) (simp add: defs l)
  from v w x y1 y2 y3 y4 y5 z show ?thesis by (intro conjI)
qed

section \<open>Reset and readiness\<close>

lemma reset_ready_eq:
  "reset_ready d =
     (let g = nirq_gpio d; m = regmap d;
          pre = level g (sampled g); post = level g (Suc (sampled g));
          rd = fault m (length (trace m));
          g1 = g\<lparr>sampled := Suc (sampled g)\<rparr>;
          g2 = g\<lparr>sampled := Suc (Suc (sampled g))\<rparr>;
          m1 = m\<lparr>trace := trace m @ [XRead SX9324_IRQ_SRC]\<rparr>
      in if pre \<noteq> 0 then (- ENODEV, d\<lparr>nirq_gpio := g1, klog := klog d @ [Init_failed]\<rparr>)
         else if rd \<noteq> 0 then
           (rd, d\<lparr>nirq_gpio := g1, regmap := m1, klog := klog d @ [Not_ready rd]\<rparr>)
         else if post \<noteq> 1 then
           (- ENODEV, d\<lparr>nirq_gpio := g2, regmap := m1, klog := klog d @ [Reset_failed]\<rparr>)
         else (0, d\<lparr>nirq_gpio := g2, regmap := m1\<rparr>))"
  by (auto simp: reset_ready_def gpiod_get_value_def regmap_read_readable pr_err_def Let_def)

text \<open>
  C2 (amended). For every call of the power-up or the software reset: when the
  reset command of a software reset fails, its error is returned and the line is
  not sampled. Otherwise, if the interrupt line reads anything but 0 before the
  read of the interrupt source register, the call returns \<^verbatim>\<open>-ENODEV\<close> and
  performs no further register access; if it reads 0 (the line is asserted, the
  chip signals the end of its reset), the register is read once; a failed read
  returns its error; if the line does not read 1 after the read, the call
  returns \<^verbatim>\<open>-ENODEV\<close>. The call succeeds exactly when the line reads 0 before
  the read, the read succeeds and the line reads 1 after it.
\<close>

theorem reset_readiness:
  assumes "sx9324_reset d src = (ret, d')"
  defines "m \<equiv> regmap d" and "g \<equiv> nirq_gpio d"
  defines "cmd \<equiv> (case src of POWER_UP_RESET \<Rightarrow> [] | SOFTWARE_RESET \<Rightarrow> [XWrite SX9324_RESET 0xde])"
  defines "cmd_ok \<equiv> (src = POWER_UP_RESET \<or> fault m (length (trace m)) = 0)"
  defines "pre \<equiv> level g (sampled g)" and "post \<equiv> level g (Suc (sampled g))"
  defines "rd \<equiv> fault m (length (trace m @ cmd))"
  shows "(\<not> cmd_ok \<longrightarrow> ret = fault m (length (trace m)) \<and> trace (regmap d') = trace m @ cmd
            \<and> nirq_gpio d' = g)
       \<and> (cmd_ok \<and> pre \<noteq> 0 \<longrightarrow> ret = - ENODEV \<and> trace (regmap d') = trace m @ cmd)
       \<and> (cmd_ok \<and> pre = 0 \<longrightarrow> trace (regmap d') = trace m @ cmd @ [XRead SX9324_IRQ_SRC])
       \<and> (cmd_ok \<and> pre = 0 \<and> rd \<noteq> 0 \<longrightarrow> ret = rd)
       \<and> (cmd_ok \<and> pre = 0 \<and> rd = 0 \<and> post \<noteq> 1 \<longrightarrow> ret = - ENODEV)
       \<and> (ret = 0 \<longleftrightarrow> cmd_ok \<and> pre = 0 \<and> rd = 0 \<and> post = 1)"
proof (cases src)
  case POWER_UP_RESET
  with assms(1) show ?thesis
    unfolding m_def g_def cmd_def cmd_ok_def pre_def post_def rd_def
    by (auto simp: sx9324_reset_def reset_ready_eq Let_def ENODEV_def split: if_splits)
next
  case SOFTWARE_RESET
  with assms(1) show ?thesis
    unfolding m_def g_def cmd_def cmd_ok_def pre_def post_def rd_def
    by (auto simp: sx9324_reset_def reset_ready_eq regmap_write_writeable Let_def ENODEV_def
        pr_err_def split: if_splits)
qed

text \<open>
  The claim as first stated fails: with the line at 0 (asserted, active low)
  before the read and at 1 after it the reset succeeds and reads the register;
  with the same level before and after the read, high or low, it fails.
\<close>

theorem reset_readiness_counterexample:
  "level (nirq_gpio reset_line_low_then_high) (sampled (nirq_gpio reset_line_low_then_high)) = 0
   \<and> fst (sx9324_reset reset_line_low_then_high POWER_UP_RESET) = 0
   \<and> trace (regmap (snd (sx9324_reset reset_line_low_then_high POWER_UP_RESET)))
       = [XRead SX9324_IRQ_SRC]
   \<and> fst (sx9324_reset reset_line_low_then_high SOFTWARE_RESET) = 0
   \<and> fst (sx9324_reset reset_line_high POWER_UP_RESET) = - 19
   \<and> fst (sx9324_reset reset_line_low POWER_UP_RESET) = - 19"
  by code_simp

text \<open>
  The reset theorem at work on the six outcomes: success, the transfers of a
  successful software reset, a line that is high at first, a line that stays low,
  a failed read, and a failed reset command.
\<close>

theorem reset_readiness_witness:
  "fst (sx9324_reset reset_line_low_then_high POWER_UP_RESET) = 0
   \<and> trace (regmap (snd (sx9324_reset reset_line_low_then_high SOFTWARE_RESET)))
       = [XWrite SX9324_RESET 0xde, XRead SX9324_IRQ_SRC]
   \<and> fst (sx9324_reset reset_line_high POWER_UP_RESET) = - ENODEV
   \<and> trace (regmap (snd (sx9324_reset reset_line_high POWER_UP_RESET))) = []
   \<and> fst (sx9324_reset reset_line_low POWER_UP_RESET) = - ENODEV
   \<and> fst (sx9324_reset reset_bus_fails POWER_UP_RESET) = - 5
   \<and> fst (sx9324_reset reset_bus_fails SOFTWARE_RESET) = - 5
   \<and> trace (regmap (snd (sx9324_reset reset_bus_fails SOFTWARE_RESET)))
       = [XWrite SX9324_RESET 0xde]"
proof -
  note ok = reset_readiness [where d = reset_line_low_then_high and src = POWER_UP_RESET, OF surjective_pairing]
  note sw = reset_readiness [where d = reset_line_low_then_high and src = SOFTWARE_RESET, OF surjective_pairing]
  note hi = reset_readiness [where d = reset_line_high and src = POWER_UP_RESET, OF surjective_pairing]
  note lo = reset_readiness [where d = reset_line_low and src = POWER_UP_RESET, OF surjective_pairing]
  note rd = reset_readiness [where d = reset_bus_fails and src = POWER_UP_RESET, OF surjective_pairing]
  note wr = reset_readiness [where d = reset_bus_fails and src = SOFTWARE_RESET, OF surjective_pairing]
  have l: "level (nirq_gpio reset_line_low_then_high) (sampled (nirq_gpio reset_line_low_then_high)) = 0"
    "level (nirq_gpio reset_line_low_then_high) (Suc (sampled (nirq_gpio reset_line_low_then_high))) = 1"
    "fault (regmap reset_line_low_then_high) k = 0"
    "trace (regmap reset_line_low_then_high) = []"
    "level (nirq_gpio reset_line_high) (sampled (nirq_gpio reset_line_high)) = 1"
    "fault (regmap reset_line_high) k = 0"
    "trace (regmap reset_line_high) = []"
    "level (nirq_gpio reset_line_low) k = 0"
    "fault (regmap reset_line_low) k = 0"
    "level (nirq_gpio reset_bus_fails) (sampled (nirq_gpio reset_bus_fails)) = 0"
    "fault (regmap reset_bus_fails) 0 = - 5"
    "trace (regmap reset_bus_fails) = []" for k
    by (simp_all add: reset_line_low_then_high_def reset_line_high_def reset_line_low_def
        reset_bus_fails_def data_at_probe_def)
  from ok l have c1: "fst (sx9324_reset reset_line_low_then_high POWER_UP_RESET) = 0"
    by simp
  from sw l have c2: "trace (regmap (snd (sx9324_reset reset_line_low_then_high SOFTWARE_RESET)))
       = [XWrite SX9324_RESET 0xde, XRead SX9324_IRQ_SRC]"
    by simp
  from hi l have c3: "fst (sx9324_reset reset_line_high POWER_UP_RESET) = - ENODEV"
    "trace (regmap (snd (sx9324_reset reset_line_high POWER_UP_RESET))) = []"
    by simp_all
  from lo l have c4: "fst (sx9324_reset reset_line_low POWER_UP_RESET) = - ENODEV"
    by simp
  from rd l have c5: "fst (sx9324_reset reset_bus_fails POWER_UP_RESET) = - 5"
    by simp
  from wr l have c6: "fst (sx9324_reset reset_bus_fails SOFTWARE_RESET) = - 5"
    "trace (regmap (snd (sx9324_reset reset_bus_fails SOFTWARE_RESET)))
       = [XWrite SX9324_RESET 0xde]"
    by simp_all
  from c1 c2 c3 c4 c5 c6 show ?thesis by blast
qed

section \<open>Operational mode\<close>

lemma ucast_merge_bits:
  fixes orig k :: u8 and val :: u32
  shows "((ucast orig :: u32) AND NOT (ucast k)) OR (val AND ucast k) =
         ucast ((orig AND NOT k) OR (ucast val AND k))"
  by (rule bit_word_eqI) (auto simp: bit_simps dest: bit_imp_le_length)

lemma mask_ucast:
  "SX9324_PHEN = ucast (0x0f :: u8)" "SX9324_DOZEPERIOD = ucast (0x60 :: u8)"
  by (simp_all add: reg_defs)

lemma ucast_u8_u32_u8 [simp]:
  fixes x :: u8
  shows "(ucast (ucast x :: u32) :: u8) = x"
  by (rule bit_word_eqI) (simp add: bit_simps)

lemma regmap_update_bits_eq:
  assumes "sx9324_readable_reg reg" "sx9324_writeable_reg reg"
  shows "regmap_update_bits m reg (ucast k) val =
    (let n = length (trace m); orig = regs m reg;
         new = (orig AND NOT k) OR (ucast val AND k)
     in if fault m n \<noteq> 0 then (fault m n, m\<lparr>trace := trace m @ [XRead reg]\<rparr>)
        else if new = orig then (0, m\<lparr>trace := trace m @ [XRead reg]\<rparr>)
        else (fault m (Suc n),
              m\<lparr>trace := trace m @ [XRead reg, XWrite reg new],
                regs := (if fault m (Suc n) = 0 then (regs m)(reg := new) else regs m)\<rparr>))"
  using assms
  by (simp add: regmap_update_bits_def regmap_read_readable regmap_write_writeable Let_def
      ucast_merge_bits ucast_u8_u32_eq_iff)

lemma merged_field:
  fixes x v k :: u8
  shows "((x AND NOT k) OR (v AND k)) AND k = v AND k"
    "((x AND NOT k) OR (v AND k)) AND NOT k = x AND NOT k"
  by (rule bit_word_eqI, auto simp: bit_simps)+

lemma software_defaults [simp]:
  "sx9324_get_software_default SX9324_GNRL_CTRL_1 = Some 0x21"
  "sx9324_get_software_default SX9324_GNRL_CTRL_0 = Some 0x45"
  by (simp_all add: sx9324_get_software_default_def sx9324_reg_defaults_def reg_defs)

lemmas update_phen = regmap_update_bits_eq [OF readable_regs(6) writeable_regs(2), of _ "0x0f",
  folded mask_ucast]
lemmas update_doze = regmap_update_bits_eq [OF readable_regs(5) writeable_regs(1), of _ "0x60",
  folded mask_ucast]

lemma get_mode_result:
  assumes "sx9324_get_mode d mode = (error, mode', d')"
  defines "m \<equiv> regmap d"
  defines "n \<equiv> length (trace (regmap d))"
  defines "phen \<equiv> regs (regmap d) SX9324_GNRL_CTRL_1 AND 0x0f"
  defines "doze \<equiv> regs (regmap d) SX9324_GNRL_CTRL_0 AND 0x60"
  shows "(fault m n = 0 \<and> phen = 0 \<longrightarrow> error = 0 \<and> mode' = SX9324_SLEEP)
       \<and> (fault m n = 0 \<and> phen \<noteq> 0 \<and> fault m (Suc n) = 0 \<and> doze \<noteq> 0 \<longrightarrow>
            error = 0 \<and> mode' = SX9324_DOZE)
       \<and> (fault m n = 0 \<and> phen \<noteq> 0 \<and> fault m (Suc n) = 0 \<and> doze = 0 \<longrightarrow>
            error = 0 \<and> mode' = SX9324_ACTIVE)
       \<and> (error \<noteq> 0 \<longleftrightarrow> fault m n \<noteq> 0 \<or> (phen \<noteq> 0 \<and> fault m (Suc n) \<noteq> 0))
       \<and> (error \<noteq> 0 \<longrightarrow> mode' = mode)
       \<and> trace (regmap d') = trace m @ XRead SX9324_GNRL_CTRL_1 #
            (if fault m n = 0 \<and> phen \<noteq> 0 then [XRead SX9324_GNRL_CTRL_0] else [])
       \<and> regs (regmap d') = regs m"
  using assms(1) unfolding m_def n_def phen_def doze_def
  by (auto simp: sx9324_get_mode_def regmap_read_readable Let_def field_zero_iffs
      split: if_splits)

text \<open>
  C3. For every state of the device registers and every outcome of the bus
  transfers: \<^verbatim>\<open>sx9324_get_mode\<close> reads the phase-enable register and reports Sleep
  when its enable field (bits 3 to 0) is zero; otherwise it reads the scan-timing
  register and reports Doze when the doze-period field (bits 6 and 5) is nonzero
  and Active when it is zero. It returns an error exactly when the first read
  fails or the second read, made only for a nonzero enable field, fails; then
  \<^verbatim>\<open>*mode\<close> is left as it was. It issues one or two reads and writes no register.
\<close>

theorem get_mode_decoding:
  assumes "sx9324_get_mode d mode = (error, mode', d')"
  defines "m \<equiv> regmap d"
  defines "n \<equiv> length (trace (regmap d))"
  defines "phen \<equiv> regs (regmap d) SX9324_GNRL_CTRL_1 AND 0x0f"
  defines "doze \<equiv> regs (regmap d) SX9324_GNRL_CTRL_0 AND 0x60"
  shows "(fault m n = 0 \<and> phen = 0 \<longrightarrow> error = 0 \<and> mode' = SX9324_SLEEP)
       \<and> (fault m n = 0 \<and> phen \<noteq> 0 \<and> fault m (Suc n) = 0 \<and> doze \<noteq> 0 \<longrightarrow>
            error = 0 \<and> mode' = SX9324_DOZE)
       \<and> (fault m n = 0 \<and> phen \<noteq> 0 \<and> fault m (Suc n) = 0 \<and> doze = 0 \<longrightarrow>
            error = 0 \<and> mode' = SX9324_ACTIVE)
       \<and> (error \<noteq> 0 \<longleftrightarrow> fault m n \<noteq> 0 \<or> (phen \<noteq> 0 \<and> fault m (Suc n) \<noteq> 0))
       \<and> (error \<noteq> 0 \<longrightarrow> mode' = mode)
       \<and> trace (regmap d') = trace m @ XRead SX9324_GNRL_CTRL_1 #
            (if fault m n = 0 \<and> phen \<noteq> 0 then [XRead SX9324_GNRL_CTRL_0] else [])
       \<and> regs (regmap d') = regs m"
  using assms(1) unfolding m_def n_def phen_def doze_def
  by (auto simp: sx9324_get_mode_def regmap_read_readable Let_def field_zero_iffs
      split: if_splits)

lemma ctrl_distinct [simp]:
  "SX9324_GNRL_CTRL_0 \<noteq> SX9324_GNRL_CTRL_1" "SX9324_GNRL_CTRL_1 \<noteq> SX9324_GNRL_CTRL_0"
  by (simp_all add: reg_defs)

lemma update_bits_frame:
  fixes k :: u8
  assumes "sx9324_readable_reg reg" "sx9324_writeable_reg reg"
  shows "fault (snd (regmap_update_bits m reg (ucast k) val)) = fault m"
    "\<exists>t. trace (snd (regmap_update_bits m reg (ucast k) val)) = trace m @ XRead reg # t"
    "bit (regs (snd (regmap_update_bits m reg (ucast k) val)) a) i \<noteq> bit (regs m a) i
       \<longrightarrow> a = reg \<and> bit k i"
  by (auto simp add: regmap_update_bits_eq [OF assms] Let_def bit_simps dest: bit_imp_le_length)

lemma update_bits_ok:
  assumes "sx9324_readable_reg reg" "sx9324_writeable_reg reg" "\<forall>j. fault m j = 0"
  shows "fst (regmap_update_bits m reg (ucast k) val) = 0"
    "regs (snd (regmap_update_bits m reg (ucast k) val)) reg AND k = ucast val AND k"
proof -
  show "fst (regmap_update_bits m reg (ucast k) val) = 0"
    using assms(3) by (simp add: regmap_update_bits_eq [OF assms(1,2)] Let_def)
  let ?new = "(regs m reg AND NOT k) OR (ucast val AND k)"
  have "regs (snd (regmap_update_bits m reg (ucast k) val)) reg = ?new"
    using assms(3) by (auto simp add: regmap_update_bits_eq [OF assms(1,2)] Let_def)
  then show "regs (snd (regmap_update_bits m reg (ucast k) val)) reg AND k = ucast val AND k"
    by (simp only: merged_field)
qed

lemmas update_phen_frame = update_bits_frame [OF readable_regs(6) writeable_regs(2),
  of _ "0x0f", folded mask_ucast]
lemmas update_doze_frame = update_bits_frame [OF readable_regs(5) writeable_regs(1),
  of _ "0x60", folded mask_ucast]
lemmas update_phen_ok = update_bits_ok [OF readable_regs(6) writeable_regs(2),
  of _ "0x0f", folded mask_ucast]
lemmas update_doze_ok = update_bits_ok [OF readable_regs(5) writeable_regs(1),
  of _ "0x60", folded mask_ucast]

lemma field_bits:
  "bit (0x0f :: u8) i = (i < 4)" "bit (0x60 :: u8) i = (i = 5 \<or> i = 6)"
proof -
  have a: "(0x0f :: u8) = mask 4" "(0x60 :: u8) = push_bit 5 (mask 2)"
    by (simp_all add: mask_eq_exp_minus_1)
  show "bit (0x0f :: u8) i = (i < 4)"
    unfolding a by (auto simp: bit_simps)
  show "bit (0x60 :: u8) i = (i = 5 \<or> i = 6)"
    unfolding a by (auto simp: bit_simps)
qed

lemma mode_distinct [simp]:
  "SX9324_ACTIVE \<noteq> SX9324_DOZE" "SX9324_DOZE \<noteq> SX9324_ACTIVE"
  "SX9324_ACTIVE \<noteq> SX9324_SLEEP" "SX9324_SLEEP \<noteq> SX9324_ACTIVE"
  "SX9324_DOZE \<noteq> SX9324_SLEEP" "SX9324_SLEEP \<noteq> SX9324_DOZE"
  by (simp_all add: reg_defs)

lemma set_mode_unfold:
  "sx9324_set_mode d mode =
     (if mode = SX9324_ACTIVE \<or> mode = SX9324_DOZE then
        let u1 = regmap_update_bits (regmap d) SX9324_GNRL_CTRL_1 SX9324_PHEN 0x21;
            u2 = regmap_update_bits (snd u1) SX9324_GNRL_CTRL_0 SX9324_DOZEPERIOD
                   (if mode = SX9324_ACTIVE then 0 else 0x45)
        in (fst u1 OR fst u2, d\<lparr>regmap := snd u2\<rparr>)
      else if mode = SX9324_SLEEP then
        let u1 = regmap_update_bits (regmap d) SX9324_GNRL_CTRL_1 SX9324_PHEN 0
        in (fst u1, d\<lparr>regmap := snd u1\<rparr>)
      else (- EINVAL, d))"
  by (simp add: sx9324_set_mode_def Let_def split_def)

text \<open>
  C10. Whatever the requested mode and whatever transfers fail, a register bit
  that differs after \<^verbatim>\<open>sx9324_set_mode\<close> is one of bits 3 to 0 of the phase-enable
  register, or one of bits 6 and 5 of the scan-timing register, the latter only
  for the modes Active and Doze. Every other bit of the two registers and every
  other register is unchanged.
\<close>

theorem set_mode_frame:
  "bit (regs (regmap (snd (sx9324_set_mode d mode))) a) i \<noteq> bit (regs (regmap d) a) i \<longrightarrow>
     (a = SX9324_GNRL_CTRL_1 \<and> i < 4)
   \<or> (a = SX9324_GNRL_CTRL_0 \<and> (i = 5 \<or> i = 6)
       \<and> (mode = SX9324_ACTIVE \<or> mode = SX9324_DOZE))"
proof -
  let ?u1 = "\<lambda>v. regmap_update_bits (regmap d) SX9324_GNRL_CTRL_1 SX9324_PHEN v"
  let ?u2 = "\<lambda>v w. regmap_update_bits (snd (?u1 v)) SX9324_GNRL_CTRL_0 SX9324_DOZEPERIOD w"
  have p: "bit (regs (snd (?u1 v)) a) i \<noteq> bit (regs (regmap d) a) i
      \<longrightarrow> a = SX9324_GNRL_CTRL_1 \<and> i < 4" for v
    using update_phen_frame(3) [of "regmap d" v a i] by (simp only: field_bits)
  have q: "bit (regs (snd (?u2 v w)) a) i \<noteq> bit (regs (snd (?u1 v)) a) i
      \<longrightarrow> a = SX9324_GNRL_CTRL_0 \<and> (i = 5 \<or> i = 6)" for v w
    using update_doze_frame(3) [of "snd (?u1 v)" w a i] by (simp only: field_bits)
  show ?thesis
  proof (cases "mode = SX9324_ACTIVE \<or> mode = SX9324_DOZE")
    case True
    then have "regmap (snd (sx9324_set_mode d mode)) =
        snd (?u2 0x21 (if mode = SX9324_ACTIVE then 0 else 0x45))"
      by (simp add: set_mode_unfold Let_def)
    with p [of "0x21"] q [of "0x21" "if mode = SX9324_ACTIVE then 0 else 0x45"] True
    show ?thesis by metis
  next
    case False
    then have "regmap (snd (sx9324_set_mode d mode)) = snd (?u1 0)
        \<or> regmap (snd (sx9324_set_mode d mode)) = regmap d"
      by (simp add: set_mode_unfold Let_def)
    with p [of 0] show ?thesis by metis
  qed
qed

text \<open>
  C5. For the modes Active and Doze, \<^verbatim>\<open>sx9324_set_mode\<close> performs the update of the
  phase-enable field and then the update of the doze-period field, whatever the
  first one returns: the transfers of the call start with the read of the
  phase-enable register and contain the read of the scan-timing register. The
  value returned is the bitwise OR of the two results, so it is nonzero exactly
  when one of the two updates failed. For a mode other than Active, Doze and
  Sleep the call returns \<^verbatim>\<open>-EINVAL\<close> and leaves the whole state as it was.
\<close>

theorem set_mode_errors:
  "(mode = SX9324_ACTIVE \<or> mode = SX9324_DOZE \<longrightarrow>
      (let u1 = regmap_update_bits (regmap d) SX9324_GNRL_CTRL_1 SX9324_PHEN 0x21;
           u2 = regmap_update_bits (snd u1) SX9324_GNRL_CTRL_0 SX9324_DOZEPERIOD
                  (if mode = SX9324_ACTIVE then 0 else 0x45)
       in sx9324_set_mode d mode = (fst u1 OR fst u2, d\<lparr>regmap := snd u2\<rparr>)
          \<and> (fst (sx9324_set_mode d mode) \<noteq> 0 \<longleftrightarrow> fst u1 \<noteq> 0 \<or> fst u2 \<noteq> 0)
          \<and> (\<exists>t1 t2. trace (snd u2) =
                trace (regmap d) @ XRead SX9324_GNRL_CTRL_1 # t1 @ XRead SX9324_GNRL_CTRL_0 # t2)))
   \<and> (mode \<noteq> SX9324_ACTIVE \<and> mode \<noteq> SX9324_DOZE \<and> mode \<noteq> SX9324_SLEEP \<longrightarrow>
        sx9324_set_mode d mode = (- EINVAL, d))"
proof -
  let ?u1 = "regmap_update_bits (regmap d) SX9324_GNRL_CTRL_1 SX9324_PHEN 0x21"
  let ?u2 = "regmap_update_bits (snd ?u1) SX9324_GNRL_CTRL_0 SX9324_DOZEPERIOD
                  (if mode = SX9324_ACTIVE then 0 else 0x45)"
  obtain t1 where t1: "trace (snd ?u1) = trace (regmap d) @ XRead SX9324_GNRL_CTRL_1 # t1"
    using update_phen_frame(2) by blast
  obtain t2 where t2: "trace (snd ?u2) = trace (snd ?u1) @ XRead SX9324_GNRL_CTRL_0 # t2"
    using update_doze_frame(2) by blast
  have tr: "\<exists>t1 t2. trace (snd ?u2) =
      trace (regmap d) @ XRead SX9324_GNRL_CTRL_1 # t1 @ XRead SX9324_GNRL_CTRL_0 # t2"
    using t1 t2 by (intro exI [of _ t1] exI [of _ t2]) simp
  have a: "mode = SX9324_ACTIVE \<or> mode = SX9324_DOZE \<Longrightarrow>
      sx9324_set_mode d mode = (fst ?u1 OR fst ?u2, d\<lparr>regmap := snd ?u2\<rparr>)"
    by (simp add: set_mode_unfold Let_def)
  have b: "mode \<noteq> SX9324_ACTIVE \<and> mode \<noteq> SX9324_DOZE \<and> mode \<noteq> SX9324_SLEEP \<Longrightarrow>
      sx9324_set_mode d mode = (- EINVAL, d)"
    by (simp add: set_mode_unfold)
  from a b tr show ?thesis
    by (simp add: Let_def or_eq_0_iff)
qed

text \<open>
  C4. On a bus where no transfer fails, from every register state and for each of
  the modes Active, Doze and Sleep: \<^verbatim>\<open>sx9324_set_mode\<close> succeeds, and
  \<^verbatim>\<open>sx9324_get_mode\<close> called next succeeds and reports the mode that was set.
\<close>

theorem mode_round_trip:
  assumes "\<forall>k. fault (regmap d) k = 0"
    and "mode = SX9324_ACTIVE \<or> mode = SX9324_DOZE \<or> mode = SX9324_SLEEP"
  shows "fst (sx9324_set_mode d mode) = 0
       \<and> fst (sx9324_get_mode (snd (sx9324_set_mode d mode)) mode0) = 0
       \<and> fst (snd (sx9324_get_mode (snd (sx9324_set_mode d mode)) mode0)) = mode"
proof -
  let ?d' = "snd (sx9324_set_mode d mode)"
  let ?u1 = "\<lambda>v. regmap_update_bits (regmap d) SX9324_GNRL_CTRL_1 SX9324_PHEN v"
  let ?u2 = "\<lambda>v w. regmap_update_bits (snd (?u1 v)) SX9324_GNRL_CTRL_0 SX9324_DOZEPERIOD w"
  have f1: "\<forall>k. fault (snd (?u1 v)) k = 0" for v
    using assms(1) by (simp add: update_phen_frame(1))
  have f2: "\<forall>k. fault (snd (?u2 v w)) k = 0" for v w
    using f1 by (simp add: update_doze_frame(1))
  have e1: "fst (?u1 v) = 0" for v
    using assms(1) by (rule update_phen_ok(1))
  have e2: "fst (?u2 v w) = 0" for v w
    using f1 by (rule update_doze_ok(1))
  have p1: "regs (snd (?u1 v)) SX9324_GNRL_CTRL_1 AND 0x0f = ucast v AND 0x0f" for v
    using assms(1) by (rule update_phen_ok(2))
  have z2: "regs (snd (?u2 v w)) SX9324_GNRL_CTRL_0 AND 0x60 = ucast w AND 0x60" for v w
    using f1 by (rule update_doze_ok(2))
  have k2: "regs (snd (?u2 v w)) SX9324_GNRL_CTRL_1 = regs (snd (?u1 v)) SX9324_GNRL_CTRL_1"
    for v w
    using update_doze_frame(3) [of "snd (?u1 v)" w SX9324_GNRL_CTRL_1]
    by (intro bit_word_eqI) auto
  obtain error mode' d'' where g: "sx9324_get_mode ?d' mode0 = (error, mode', d'')"
    by (cases "sx9324_get_mode ?d' mode0") auto
  note gm = get_mode_result [OF g]
  from assms(2) consider (active) "mode = SX9324_ACTIVE" | (doze) "mode = SX9324_DOZE"
    | (sleep) "mode = SX9324_SLEEP" by blast
  then show ?thesis
  proof cases
    case active
    then have r: "sx9324_set_mode d mode = (0, d\<lparr>regmap := snd (?u2 0x21 0)\<rparr>)"
      by (simp add: set_mode_unfold Let_def e1 e2)
    have "regs (regmap ?d') SX9324_GNRL_CTRL_1 AND 0x0f = 1"
      "regs (regmap ?d') SX9324_GNRL_CTRL_0 AND 0x60 = 0"
      "fault (regmap ?d') k = 0" for k
      using p1 [of "0x21"] z2 [of "0x21" 0] f2 by (simp_all add: r k2)
    with gm g r active show ?thesis by simp
  next
    case doze
    then have r: "sx9324_set_mode d mode = (0, d\<lparr>regmap := snd (?u2 0x21 0x45)\<rparr>)"
      by (simp add: set_mode_unfold Let_def e1 e2)
    have "regs (regmap ?d') SX9324_GNRL_CTRL_1 AND 0x0f = 1"
      "regs (regmap ?d') SX9324_GNRL_CTRL_0 AND 0x60 = 0x40"
      "fault (regmap ?d') k = 0" for k
      using p1 [of "0x21"] z2 [of "0x21" "0x45"] f2 by (simp_all add: r k2)
    with gm g r doze show ?thesis by simp
  next
    case sleep
    then have r: "sx9324_set_mode d mode = (0, d\<lparr>regmap := snd (?u1 0)\<rparr>)"
      by (simp add: set_mode_unfold Let_def e1)
    have "regs (regmap ?d') SX9324_GNRL_CTRL_1 AND 0x0f = 0"
      "fault (regmap ?d') k = 0" for k
      using p1 [of 0] f1 by (simp_all add: r)
    with gm g r sleep show ?thesis by simp
  qed
qed

lemma get_mode_collapse:
  "sx9324_get_mode d mode =
     (fst (sx9324_get_mode d mode), fst (snd (sx9324_get_mode d mode)),
      snd (snd (sx9324_get_mode d mode)))"
  by simp

text \<open>
  The decoding at work on a sleeping, a dozing and an active device, and on a
  bus whose first transfer fails.
\<close>

theorem get_mode_decoding_witness:
  "fst (snd (sx9324_get_mode mode_dev_sleep SX9324_ACTIVE)) = SX9324_SLEEP
   \<and> fst (snd (sx9324_get_mode mode_dev_doze SX9324_ACTIVE)) = SX9324_DOZE
   \<and> fst (snd (sx9324_get_mode mode_dev_active SX9324_SLEEP)) = SX9324_ACTIVE
   \<and> fst (sx9324_get_mode mode_dev_bus_fails SX9324_DOZE) \<noteq> 0
   \<and> fst (snd (sx9324_get_mode mode_dev_bus_fails SX9324_DOZE)) = SX9324_DOZE"
proof -
  note s = get_mode_decoding [OF get_mode_collapse, of mode_dev_sleep SX9324_ACTIVE]
  note z = get_mode_decoding [OF get_mode_collapse, of mode_dev_doze SX9324_ACTIVE]
  note a = get_mode_decoding [OF get_mode_collapse, of mode_dev_active SX9324_SLEEP]
  note f = get_mode_decoding [OF get_mode_collapse, of mode_dev_bus_fails SX9324_DOZE]
  have h: "fault (regmap mode_dev_sleep) k = 0"
    "regs (regmap mode_dev_sleep) SX9324_GNRL_CTRL_1 AND 0x0f = 0"
    "fault (regmap mode_dev_doze) k = 0"
    "regs (regmap mode_dev_doze) SX9324_GNRL_CTRL_1 AND 0x0f \<noteq> 0"
    "regs (regmap mode_dev_doze) SX9324_GNRL_CTRL_0 AND 0x60 \<noteq> 0"
    "fault (regmap mode_dev_active) k = 0"
    "regs (regmap mode_dev_active) SX9324_GNRL_CTRL_1 AND 0x0f \<noteq> 0"
    "regs (regmap mode_dev_active) SX9324_GNRL_CTRL_0 AND 0x60 = 0"
    "fault (regmap mode_dev_bus_fails) (length (trace (regmap mode_dev_bus_fails))) \<noteq> 0" for k
    by (simp_all add: mode_dev_sleep_def mode_dev_doze_def mode_dev_active_def
        mode_dev_bus_fails_def data_at_probe_def)
  from s h(1,2) have c1: "fst (snd (sx9324_get_mode mode_dev_sleep SX9324_ACTIVE)) = SX9324_SLEEP"
    by blast
  from z h(3,4,5) have c2: "fst (snd (sx9324_get_mode mode_dev_doze SX9324_ACTIVE)) = SX9324_DOZE"
    by blast
  from a h(6,7,8) have c3: "fst (snd (sx9324_get_mode mode_dev_active SX9324_SLEEP)) = SX9324_ACTIVE"
    by blast
  from f h(9) have c4: "fst (sx9324_get_mode mode_dev_bus_fails SX9324_DOZE) \<noteq> 0"
    "fst (snd (sx9324_get_mode mode_dev_bus_fails SX9324_DOZE)) = SX9324_DOZE"
    by blast+
  from c1 c2 c3 c4 show ?thesis by blast
qed

text \<open>
  The round trip at work: Active set on a dozing device, Doze on a sleeping one,
  Sleep on an active one.
\<close>

theorem mode_round_trip_witness:
  "fst (snd (sx9324_get_mode (snd (sx9324_set_mode mode_dev_doze SX9324_ACTIVE)) SX9324_SLEEP))
     = SX9324_ACTIVE
   \<and> fst (snd (sx9324_get_mode (snd (sx9324_set_mode mode_dev_sleep SX9324_DOZE)) SX9324_SLEEP))
     = SX9324_DOZE
   \<and> fst (snd (sx9324_get_mode (snd (sx9324_set_mode mode_dev_active SX9324_SLEEP)) SX9324_ACTIVE))
     = SX9324_SLEEP"
proof -
  have h: "\<forall>k. fault (regmap mode_dev_doze) k = 0" "\<forall>k. fault (regmap mode_dev_sleep) k = 0"
    "\<forall>k. fault (regmap mode_dev_active) k = 0"
    by (simp_all add: mode_dev_sleep_def mode_dev_doze_def mode_dev_active_def data_at_probe_def)
  from mode_round_trip [OF h(1), of SX9324_ACTIVE SX9324_SLEEP]
    mode_round_trip [OF h(2), of SX9324_DOZE SX9324_SLEEP]
    mode_round_trip [OF h(3), of SX9324_SLEEP SX9324_ACTIVE]
  show ?thesis by simp
qed

text \<open>
  The error combination at work: a failing first update with the second one still
  made, a call without faults, and a mode outside the enumeration.
\<close>

theorem set_mode_errors_witness:
  "fst (sx9324_set_mode mode_dev_bus_fails SX9324_ACTIVE) = - 5
   \<and> trace (regmap (snd (sx9324_set_mode mode_dev_bus_fails SX9324_ACTIVE)))
       = [XRead SX9324_GNRL_CTRL_1, XRead SX9324_GNRL_CTRL_0]
   \<and> fst (sx9324_set_mode mode_dev_sleep SX9324_DOZE) = 0
   \<and> sx9324_set_mode mode_dev_sleep 7 = (- EINVAL, mode_dev_sleep)"
proof -
  let ?u1 = "regmap_update_bits (regmap mode_dev_bus_fails) SX9324_GNRL_CTRL_1 SX9324_PHEN 0x21"
  let ?u2 = "regmap_update_bits (snd ?u1) SX9324_GNRL_CTRL_0 SX9324_DOZEPERIOD 0"
  let ?v1 = "regmap_update_bits (regmap mode_dev_sleep) SX9324_GNRL_CTRL_1 SX9324_PHEN 0x21"
  let ?v2 = "regmap_update_bits (snd ?v1) SX9324_GNRL_CTRL_0 SX9324_DOZEPERIOD 0x45"
  have e: "fst ?u1 = - 5" "fst ?u2 = 0"
    "trace (snd ?u2) = [XRead SX9324_GNRL_CTRL_1, XRead SX9324_GNRL_CTRL_0]"
    "fst ?v1 = 0" "fst ?v2 = 0"
    by code_simp+
  have n: "(7 :: u32) \<noteq> SX9324_ACTIVE \<and> 7 \<noteq> SX9324_DOZE \<and> 7 \<noteq> SX9324_SLEEP"
    by (simp add: reg_defs)
  from set_mode_errors [of SX9324_ACTIVE mode_dev_bus_fails] e(1,2,3)
  have c1: "fst (sx9324_set_mode mode_dev_bus_fails SX9324_ACTIVE) = - 5"
    "trace (regmap (snd (sx9324_set_mode mode_dev_bus_fails SX9324_ACTIVE)))
       = [XRead SX9324_GNRL_CTRL_1, XRead SX9324_GNRL_CTRL_0]"
    by (simp_all add: Let_def)
  from set_mode_errors [of SX9324_DOZE mode_dev_sleep] e(4,5)
  have c2: "fst (sx9324_set_mode mode_dev_sleep SX9324_DOZE) = 0"
    by (simp add: Let_def)
  from set_mode_errors [of 7 mode_dev_sleep] n
  have c3: "sx9324_set_mode mode_dev_sleep 7 = (- EINVAL, mode_dev_sleep)"
    by blast
  from c1 c2 c3 show ?thesis by blast
qed

text \<open>
  The frame at work: setting Doze on a sleeping device changes bit 6 of the
  scan-timing register and leaves bit 5 of the phase-enable register; setting
  Sleep on a dozing device leaves bit 6 of the scan-timing register.
\<close>

theorem set_mode_frame_witness:
  "bit (regs (regmap (snd (sx9324_set_mode mode_dev_sleep SX9324_DOZE))) SX9324_GNRL_CTRL_0) 6
     \<noteq> bit (regs (regmap mode_dev_sleep) SX9324_GNRL_CTRL_0) 6
   \<and> bit (regs (regmap (snd (sx9324_set_mode mode_dev_sleep SX9324_DOZE))) SX9324_GNRL_CTRL_1) 5
     = bit (regs (regmap mode_dev_sleep) SX9324_GNRL_CTRL_1) 5
   \<and> bit (regs (regmap (snd (sx9324_set_mode mode_dev_doze SX9324_SLEEP))) SX9324_GNRL_CTRL_0) 6
     = bit (regs (regmap mode_dev_doze) SX9324_GNRL_CTRL_0) 6
   \<and> (SX9324_DOZE = SX9324_ACTIVE \<or> SX9324_DOZE = SX9324_DOZE)"
proof -
  have c1: "bit (regs (regmap (snd (sx9324_set_mode mode_dev_sleep SX9324_DOZE))) SX9324_GNRL_CTRL_0) 6
     \<noteq> bit (regs (regmap mode_dev_sleep) SX9324_GNRL_CTRL_0) 6"
    by code_simp
  from set_mode_frame [of mode_dev_sleep SX9324_DOZE SX9324_GNRL_CTRL_1 5]
  have c2: "bit (regs (regmap (snd (sx9324_set_mode mode_dev_sleep SX9324_DOZE))) SX9324_GNRL_CTRL_1) 5
     = bit (regs (regmap mode_dev_sleep) SX9324_GNRL_CTRL_1) 5"
    by simp
  from set_mode_frame [of mode_dev_doze SX9324_SLEEP SX9324_GNRL_CTRL_0 6]
  have c3: "bit (regs (regmap (snd (sx9324_set_mode mode_dev_doze SX9324_SLEEP))) SX9324_GNRL_CTRL_0) 6
     = bit (regs (regmap mode_dev_doze) SX9324_GNRL_CTRL_0) 6"
    by simp
  from set_mode_frame [of mode_dev_sleep SX9324_DOZE SX9324_GNRL_CTRL_0 6] c1
  have c4: "SX9324_DOZE = SX9324_ACTIVE \<or> SX9324_DOZE = SX9324_DOZE"
    by simp
  from c1 c2 c3 c4 show ?thesis by blast
qed

section \<open>Power rails and software defaults\<close>

text \<open>
  C8 (amended). For each of the two rails and every requested state: the call is
  a successful no-op, with no call of the regulator, when the shadow state
  already equals the request; otherwise it calls the regulator exactly once,
  returns what the regulator returns, and sets the shadow state to the request
  only when the regulator succeeded. Consequently, when a call returns success,
  a second call with the same request changes nothing, and the two calls
  together issue at most one regulator call.
\<close>

theorem enable_rail_shadow:
  "(pullup_enabled d = on \<longrightarrow> sx9324_enable_pullup d on = (0, d))
   \<and> (pullup_enabled d \<noteq> on \<longrightarrow>
        fst (sx9324_enable_pullup d on) = outcome (pullup d) (length (calls (pullup d)))
      \<and> calls (pullup (snd (sx9324_enable_pullup d on))) = calls (pullup d) @ [on]
      \<and> pullup_enabled (snd (sx9324_enable_pullup d on)) =
          (if fst (sx9324_enable_pullup d on) = 0 then on else pullup_enabled d))
   \<and> (fst (sx9324_enable_pullup d on) = 0 \<longrightarrow>
        sx9324_enable_pullup (snd (sx9324_enable_pullup d on)) on
          = (0, snd (sx9324_enable_pullup d on))
      \<and> length (calls (pullup (snd (sx9324_enable_pullup (snd (sx9324_enable_pullup d on)) on))))
          \<le> Suc (length (calls (pullup d))))
   \<and> (vdd_enabled d = on \<longrightarrow> sx9324_enable_vdd d on = (0, d))
   \<and> (vdd_enabled d \<noteq> on \<longrightarrow>
        fst (sx9324_enable_vdd d on) = outcome (vdd d) (length (calls (vdd d)))
      \<and> calls (vdd (snd (sx9324_enable_vdd d on))) = calls (vdd d) @ [on]
      \<and> vdd_enabled (snd (sx9324_enable_vdd d on)) =
          (if fst (sx9324_enable_vdd d on) = 0 then on else vdd_enabled d))
   \<and> (fst (sx9324_enable_vdd d on) = 0 \<longrightarrow>
        sx9324_enable_vdd (snd (sx9324_enable_vdd d on)) on
          = (0, snd (sx9324_enable_vdd d on))
      \<and> length (calls (vdd (snd (sx9324_enable_vdd (snd (sx9324_enable_vdd d on)) on))))
          \<le> Suc (length (calls (vdd d))))"
  by (simp add: sx9324_enable_pullup_def sx9324_enable_vdd_def regulator_enable_def
      regulator_disable_def Let_def)

text \<open>
  The claim as first stated fails: when the regulator refuses, the shadow state
  stays as it was, and a second call with the same request calls the regulator
  again.
\<close>

theorem enable_rail_shadow_counterexample:
  "fst (sx9324_enable_pullup rails_refuse True) = - 5
   \<and> calls (pullup (snd (sx9324_enable_pullup (snd (sx9324_enable_pullup rails_refuse True)) True)))
       = [True, True]
   \<and> calls (vdd (snd (sx9324_enable_vdd (snd (sx9324_enable_vdd rails_refuse True)) True)))
       = [True, True]"
  by code_simp

text \<open>
  The rail theorem at work: with rails that accept, the first enable calls the
  regulator once and the second is a no-op; with rails that refuse, the shadow
  state stays off; disabling a rail that is off calls nothing.
\<close>

theorem enable_rail_shadow_witness:
  "calls (pullup (snd (sx9324_enable_pullup mode_dev_sleep True))) = [True]
   \<and> pullup_enabled (snd (sx9324_enable_pullup mode_dev_sleep True))
   \<and> length (calls (pullup (snd (sx9324_enable_pullup
          (snd (sx9324_enable_pullup mode_dev_sleep True)) True)))) \<le> 1
   \<and> \<not> vdd_enabled (snd (sx9324_enable_vdd rails_refuse True))
   \<and> sx9324_enable_vdd mode_dev_sleep False = (0, mode_dev_sleep)"
proof -
  have h: "pullup_enabled mode_dev_sleep \<noteq> True" "outcome (pullup mode_dev_sleep) k = 0"
    "calls (pullup mode_dev_sleep) = []" "vdd_enabled mode_dev_sleep = False"
    "vdd_enabled rails_refuse \<noteq> True" "outcome (vdd rails_refuse) k = - 5" for k
    by (simp_all add: mode_dev_sleep_def rails_refuse_def data_at_probe_def)
  note a = enable_rail_shadow [of mode_dev_sleep True]
  note b = enable_rail_shadow [of rails_refuse True]
  note c = enable_rail_shadow [of mode_dev_sleep False]
  from a h(1,2,3) have c1: "calls (pullup (snd (sx9324_enable_pullup mode_dev_sleep True))) = [True]"
    "pullup_enabled (snd (sx9324_enable_pullup mode_dev_sleep True))"
    "fst (sx9324_enable_pullup mode_dev_sleep True) = 0"
    by simp_all
  from a c1(3) h(1,2,3) have c2: "length (calls (pullup (snd (sx9324_enable_pullup
          (snd (sx9324_enable_pullup mode_dev_sleep True)) True)))) \<le> 1"
    by simp
  from b h(5,6) have c3: "\<not> vdd_enabled (snd (sx9324_enable_vdd rails_refuse True))"
    by simp
  from c h(4) have c4: "sx9324_enable_vdd mode_dev_sleep False = (0, mode_dev_sleep)"
    by blast
  from c1 c2 c3 c4 show ?thesis by blast
qed

lemma reset_software_default_from_run:
  assumes "\<forall>e \<in> set tbl. sx9324_writeable_reg (fst e)"
    and "j \<le> length tbl"
    and "\<forall>i<j. fault (regmap d) (length (trace (regmap d)) + i) = 0"
    and "j < length tbl \<longrightarrow> fault (regmap d) (length (trace (regmap d)) + j) \<noteq> 0"
  shows "fst (reset_software_default_from tbl d) =
           (if j < length tbl then fault (regmap d) (length (trace (regmap d)) + j) else 0)
       \<and> trace (regmap (snd (reset_software_default_from tbl d))) =
           trace (regmap d) @ map (\<lambda>(r, v). XWrite r (ucast v)) (take (Suc j) tbl)
       \<and> regs (regmap (snd (reset_software_default_from tbl d))) =
           fold (\<lambda>(r, v) f. f(r := ucast v)) (take j tbl) (regs (regmap d))
       \<and> klog (snd (reset_software_default_from tbl d)) =
           klog d @ (if j < length tbl
                     then [Write_default_failed (fst (tbl ! j))
                             (fault (regmap d) (length (trace (regmap d)) + j))]
                     else [])
       \<and> fault (regmap (snd (reset_software_default_from tbl d))) = fault (regmap d)"
  using assms
proof (induction tbl arbitrary: d j)
  case Nil
  then show ?case by simp
next
  case (Cons e rest)
  obtain r v where e: "e = (r, v)" by (cases e)
  from Cons.prems(1) e have w: "sx9324_writeable_reg r" by simp
  let ?m = "regmap d"
  let ?n = "length (trace ?m)"
  show ?case
  proof (cases j)
    case 0
    with Cons.prems(4) have "fault ?m ?n \<noteq> 0" by simp
    with 0 e w show ?thesis
      by (simp add: regmap_write_writeable Let_def pr_err_def)
  next
    case (Suc j')
    with Cons.prems(3) have ok: "fault ?m ?n = 0" by force
    let ?d1 = "d\<lparr>regmap := ?m\<lparr>trace := trace ?m @ [XWrite r (ucast v)],
                               regs := (regs ?m)(r := ucast v)\<rparr>\<rparr>"
    have step: "reset_software_default_from (e # rest) d = reset_software_default_from rest ?d1"
      using e w ok by (simp add: regmap_write_writeable Let_def)
    have p1: "\<forall>e \<in> set rest. sx9324_writeable_reg (fst e)"
      using Cons.prems(1) by simp
    have p2: "j' \<le> length rest"
      using Cons.prems(2) Suc by simp
    have p3: "\<forall>i<j'. fault (regmap ?d1) (length (trace (regmap ?d1)) + i) = 0"
      using Cons.prems(3) Suc by auto
    have p4: "j' < length rest \<longrightarrow> fault (regmap ?d1) (length (trace (regmap ?d1)) + j') \<noteq> 0"
      using Cons.prems(4) Suc by auto
    from Cons.IH [OF p1 p2 p3 p4] show ?thesis
      unfolding step using Suc e by simp
  qed
qed

lemma reg_defaults_writeable:
  "\<forall>e \<in> set sx9324_reg_defaults. sx9324_writeable_reg (fst e)"
  by (simp add: sx9324_reg_defaults_def)

text \<open>
  C9 (amended). Let \<open>j\<close> be the number of leading entries of the compiled-in
  table whose writes succeed, so that entry \<open>j\<close>, if there is one, is the first
  whose write fails. Then \<^verbatim>\<open>sx9324_reset_software_default\<close> issues the writes of
  the entries 0 to \<open>j\<close> in table order and nothing after them; the device holds
  the values of the first \<open>j\<close> entries on top of its former content (no
  rollback); the value returned to the caller is the error code of the failing
  write and nothing more, and the failing address is named only in the message
  written to the kernel log. When all entries succeed (\<open>j\<close> is the length of the
  table), all are written and 0 is returned.
\<close>

theorem apply_defaults_in_order:
  assumes "j \<le> length sx9324_reg_defaults"
    and "\<forall>i<j. fault (regmap d) (length (trace (regmap d)) + i) = 0"
    and "j < length sx9324_reg_defaults \<longrightarrow>
           fault (regmap d) (length (trace (regmap d)) + j) \<noteq> 0"
  shows "fst (sx9324_reset_software_default d) =
           (if j < length sx9324_reg_defaults
            then fault (regmap d) (length (trace (regmap d)) + j) else 0)
       \<and> trace (regmap (snd (sx9324_reset_software_default d))) =
           trace (regmap d)
           @ map (\<lambda>(r, v). XWrite r (ucast v)) (take (Suc j) sx9324_reg_defaults)
       \<and> regs (regmap (snd (sx9324_reset_software_default d))) =
           fold (\<lambda>(r, v) f. f(r := ucast v)) (take j sx9324_reg_defaults) (regs (regmap d))
       \<and> klog (snd (sx9324_reset_software_default d)) =
           klog d @ (if j < length sx9324_reg_defaults
                     then [Write_default_failed (fst (sx9324_reg_defaults ! j))
                             (fault (regmap d) (length (trace (regmap d)) + j))]
                     else [])"
  using reset_software_default_from_run [OF reg_defaults_writeable assms]
  unfolding sx9324_reset_software_default_def by blast

text \<open>
  The claim as first stated fails: the caller receives the same value whether the
  first or the third entry fails; only the log entries differ.
\<close>

theorem apply_defaults_in_order_counterexample:
  "fst (sx9324_reset_software_default first_write_fails) = - 5
   \<and> fst (sx9324_reset_software_default third_write_fails) = - 5
   \<and> klog (snd (sx9324_reset_software_default first_write_fails)) =
       [Write_default_failed SX9324_IRQ_MSK (- 5)]
   \<and> klog (snd (sx9324_reset_software_default third_write_fails)) =
       [Write_default_failed SX9324_AFE_PH_0 (- 5)]"
  by code_simp

text \<open>
  The theorem at work: a failure injected on the third entry leaves the first two
  written, returns the error and names the third address; without a failure all
  four entries are written.
\<close>

theorem apply_defaults_in_order_witness:
  "fst (sx9324_reset_software_default third_write_fails) = - 5
   \<and> trace (regmap (snd (sx9324_reset_software_default third_write_fails))) =
       [XWrite SX9324_IRQ_MSK 0x60, XWrite SX9324_GNRL_CTRL_0 0x45, XWrite SX9324_AFE_PH_0 0x29]
   \<and> regs (regmap (snd (sx9324_reset_software_default third_write_fails))) SX9324_GNRL_CTRL_0
       = 0x45
   \<and> regs (regmap (snd (sx9324_reset_software_default third_write_fails))) SX9324_AFE_PH_0 = 0
   \<and> klog (snd (sx9324_reset_software_default third_write_fails)) =
       [Write_default_failed SX9324_AFE_PH_0 (- 5)]
   \<and> fst (sx9324_reset_software_default mode_dev_sleep) = 0
   \<and> regs (regmap (snd (sx9324_reset_software_default mode_dev_sleep))) SX9324_GNRL_CTRL_1
       = 0x21"
proof -
  have l: "length sx9324_reg_defaults = 4"
    by (simp add: sx9324_reg_defaults_def)
  have h: "(2 :: nat) \<le> length sx9324_reg_defaults"
    "\<forall>i<2. fault (regmap third_write_fails) (length (trace (regmap third_write_fails)) + i) = 0"
    "2 < length sx9324_reg_defaults \<longrightarrow>
       fault (regmap third_write_fails) (length (trace (regmap third_write_fails)) + 2) \<noteq> 0"
    "(4 :: nat) \<le> length sx9324_reg_defaults"
    "\<forall>i<4. fault (regmap mode_dev_sleep) (length (trace (regmap mode_dev_sleep)) + i) = 0"
    "4 < length sx9324_reg_defaults \<longrightarrow>
       fault (regmap mode_dev_sleep) (length (trace (regmap mode_dev_sleep)) + 4) \<noteq> 0"
    by (simp_all add: l third_write_fails_def mode_dev_sleep_def data_at_probe_def)
  have d: "trace (regmap third_write_fails) = []" "klog third_write_fails = []"
    "regs (regmap third_write_fails) = (\<lambda>_. 0)"
    "fault (regmap third_write_fails) (Suc (Suc 0)) = - 5"
    by (simp_all add: third_write_fails_def data_at_probe_def)
  from apply_defaults_in_order [OF h(1,2,3)] d
  have c1: "fst (sx9324_reset_software_default third_write_fails) = - 5"
    "trace (regmap (snd (sx9324_reset_software_default third_write_fails))) =
       [XWrite SX9324_IRQ_MSK 0x60, XWrite SX9324_GNRL_CTRL_0 0x45, XWrite SX9324_AFE_PH_0 0x29]"
    "regs (regmap (snd (sx9324_reset_software_default third_write_fails))) SX9324_GNRL_CTRL_0
       = 0x45"
    "regs (regmap (snd (sx9324_reset_software_default third_write_fails))) SX9324_AFE_PH_0 = 0"
    "klog (snd (sx9324_reset_software_default third_write_fails)) =
       [Write_default_failed SX9324_AFE_PH_0 (- 5)]"
    by (simp_all add: l sx9324_reg_defaults_def reg_defs)
  from apply_defaults_in_order [OF h(4,5,6)]
  have c2: "fst (sx9324_reset_software_default mode_dev_sleep) = 0"
    "regs (regmap (snd (sx9324_reset_software_default mode_dev_sleep))) SX9324_GNRL_CTRL_1
       = 0x21"
    by (simp_all add: l sx9324_reg_defaults_def reg_defs)
  from c1 c2 show ?thesis by blast
qed

end
